theory Spec2Isabelle
  imports Complex_Main
begin

section \<open>Data model of the flex container (Flex.tsx)\<close>

text \<open>
  JavaScript numbers are modelled as real numbers: the rounding, the infinities and the
  NaN of IEEE doubles are outside the model. A division is read as in the source only
  where its divisor is not zero, so the theorems about divided values assume a scale
  factor different from zero.

  Yoga nodes and THREE groups are objects compared by reference (\<open>===\<close>); the model
  gives each object its identity, a natural number.
\<close>

type_synonym YogaNode = nat
type_synonym Group = nat

text \<open>A flex size value is a number or a solver token such as a percentage string.\<close>

datatype Value = Num real | Str string

text \<open>
  \<open>R3FlexProps\<close>: the reflow reads the fields \<open>width\<close> and \<open>height\<close> only; a field
  that is \<open>undefined\<close> is \<open>None\<close>. The other properties live in the record's extension.
\<close>

record R3FlexProps =
  width :: "Value option"
  height :: "Value option"

record BoxesItem =
  node :: YogaNode
  group :: Group
  flexProps :: R3FlexProps
  centerAnchor :: bool

section \<open>The box registry: registerBox and unregisterBox\<close>

text \<open>\<open>Array.prototype.findIndex\<close>: the first index whose element satisfies the predicate, else -1.\<close>

fun findIndex :: "('a \<Rightarrow> bool) \<Rightarrow> 'a list \<Rightarrow> int" where
  "findIndex P [] = - 1"
| "findIndex P (x # xs) =
     (if P x then 0
      else (let i = findIndex P xs in if i = - 1 then - 1 else i + 1))"

text \<open>\<open>xs.splice(i, 1)\<close> for an index inside the array: the element at \<open>i\<close> is removed.\<close>

definition splice1 :: "nat \<Rightarrow> 'a list \<Rightarrow> 'a list" where
  "splice1 i xs = take i xs @ drop (Suc i) xs"

text \<open>
  \<open>registerBox\<close> mutates \<open>boxesRef.current\<close> and returns a boolean; the model returns
  the new array together with the boolean.
\<close>

definition registerBox ::
  "YogaNode \<Rightarrow> Group \<Rightarrow> R3FlexProps \<Rightarrow> bool \<Rightarrow> BoxesItem list \<Rightarrow> BoxesItem list \<times> bool" where
  "registerBox n g fp ca bs =
     (let i = findIndex (\<lambda>b. node b = n) bs;
          boxItem = \<lparr>node = n, group = g, flexProps = fp, centerAnchor = ca\<rparr>
      in if i \<noteq> - 1 then (bs[nat i := boxItem], False)
         else (bs @ [boxItem], True))"

definition unregisterBox :: "YogaNode \<Rightarrow> BoxesItem list \<Rightarrow> BoxesItem list" where
  "unregisterBox n bs =
     (let i = findIndex (\<lambda>b. node b = n) bs
      in if i \<noteq> - 1 then splice1 (nat i) bs else bs)"

text \<open>A sequence of \<open>registerBox\<close> calls, each with its four arguments.\<close>

definition registerAll ::
  "(YogaNode \<times> Group \<times> R3FlexProps \<times> bool) list \<Rightarrow> BoxesItem list \<Rightarrow> BoxesItem list" where
  "registerAll rs bs =
     foldl (\<lambda>acc r. case r of (n, g, fp, ca) \<Rightarrow> fst (registerBox n g fp ca acc)) bs rs"

section \<open>Planes, axes and vectors\<close>

datatype Axis = X | Y | Z

text \<open>\<open>FlexPlane\<close> is one of the three axis pairs \<open>'xy'\<close>, \<open>'yz'\<close>, \<open>'xz'\<close>.\<close>

datatype FlexPlane = XY | YZ | XZ

text \<open>\<open>plane[0]\<close> and \<open>plane[1]\<close>: the first and the second character of the plane's name.\<close>

fun mainAxis :: "FlexPlane \<Rightarrow> Axis" where
  "mainAxis XY = X"
| "mainAxis YZ = Y"
| "mainAxis XZ = X"

fun crossAxis :: "FlexPlane \<Rightarrow> Axis" where
  "crossAxis XY = Y"
| "crossAxis YZ = Z"
| "crossAxis XZ = Z"

text \<open>
  Modelled from the spec: \<open>getDepthAxis\<close> of util.ts, which is not among the sources.
  The spec calls the depth axis the plane's implicit third axis, \<open>z\<close> for the plane \<open>'xy'\<close>.
\<close>

fun getDepthAxis :: "FlexPlane \<Rightarrow> Axis" where
  "getDepthAxis XY = Z"
| "getDepthAxis YZ = X"
| "getDepthAxis XZ = Y"

datatype Vector3 = Vector3 real real real

text \<open>\<open>vec[axis]\<close>: a component of a vector, read by the axis name.\<close>

fun component :: "Vector3 \<Rightarrow> Axis \<Rightarrow> real" where
  "component (Vector3 a b c) X = a"
| "component (Vector3 a b c) Y = b"
| "component (Vector3 a b c) Z = c"

text \<open>
  Modelled from the spec: \<open>vectorFromObject\<close> of util.ts, which is not among the sources.
  Its argument is an object literal with computed keys, here a map from the axis to the
  number, in which a later key overrides an earlier one. A key that the object lacks is
  read as 0 (the default of the vector's constructor); \<open>plane_keys\<close> below shows that
  the three keys of a plane are always all present.
\<close>

definition getKey :: "(Axis \<rightharpoonup> real) \<Rightarrow> Axis \<Rightarrow> real" where
  "getKey obj k = (case obj k of Some v \<Rightarrow> v | None \<Rightarrow> 0)"

definition vectorFromObject :: "(Axis \<rightharpoonup> real) \<Rightarrow> Vector3" where
  "vectorFromObject obj = Vector3 (getKey obj X) (getKey obj Y) (getKey obj Z)"

text \<open>
  Modelled from the spec: \<open>getRootShift\<close> of util.ts, which is not among the sources.
  The spec: if the container itself is centered, the shift moves the whole computed
  layout by half the root's width and height along each axis, so that the children are
  laid out around the container's own origin rather than its top-left corner; if not
  centered, the shift is zero. The layout spans from 0 to the root's width, so moving it
  around the origin is a shift by minus half the width (and height). The spec names no
  dependency on the node that the caller passes.
\<close>

definition getRootShift :: "bool \<Rightarrow> real \<Rightarrow> real \<Rightarrow> YogaNode \<Rightarrow> real \<times> real" where
  "getRootShift centered rootWidth rootHeight n =
     (if centered then (- rootWidth / 2, - rootHeight / 2) else (0, 0))"

section \<open>The external solver and the state of the container\<close>

text \<open>What \<open>getComputedLayout\<close> returns for a node.\<close>

record Layout =
  computedLeft :: real
  computedTop :: real
  computedWidth :: real
  computedHeight :: real

text \<open>
  The part of the solver's node tree that the reflow reads and writes: the width and
  height last given to \<open>setWidth\<close> and \<open>setHeight\<close> (\<open>None\<close> when never set) and the
  number of children of each node.
\<close>

record YogaTree =
  styleWidth :: "YogaNode \<Rightarrow> Value option"
  styleHeight :: "YogaNode \<Rightarrow> Value option"
  childCount :: "YogaNode \<Rightarrow> nat"

definition setWidth :: "YogaNode \<Rightarrow> Value \<Rightarrow> YogaTree \<Rightarrow> YogaTree" where
  "setWidth n v y = y\<lparr>styleWidth := (styleWidth y)(n := Some v)\<rparr>"

definition setHeight :: "YogaNode \<Rightarrow> Value \<Rightarrow> YogaTree \<Rightarrow> YogaTree" where
  "setHeight n v y = y\<lparr>styleHeight := (styleHeight y)(n := Some v)\<rparr>"

definition getChildCount :: "YogaTree \<Rightarrow> YogaNode \<Rightarrow> nat" where
  "getChildCount y n = childCount y n"

text \<open>\<open>yogaDirection\<close> is \<open>'ltr'\<close>, \<open>'rtl'\<close> or a direction constant of the solver.\<close>

datatype FlexYogaDirection = Ltr | Rtl | Direction nat

definition DIRECTION_LTR :: nat where
  "DIRECTION_LTR = 1"

definition DIRECTION_RTL :: nat where
  "DIRECTION_RTL = 2"

definition yogaDirection' :: "FlexYogaDirection \<Rightarrow> nat" where
  "yogaDirection' d =
     (case d of Ltr \<Rightarrow> DIRECTION_LTR | Rtl \<Rightarrow> DIRECTION_RTL | Direction k \<Rightarrow> k)"

text \<open>A call of a bounding-extent measurement, with the group it measures.\<close>

datatype MeasureCall = OBBSize Group Group | BoxSize Group

text \<open>
  What a layout-changed listener can do to the container: the operations of the shared
  flex context.
\<close>

datatype Action =
    RequestReflow
  | RegisterBox YogaNode Group R3FlexProps bool
  | UnregisterBox YogaNode

text \<open>
  The mutable state of one container: the refs \<open>boxesRef\<close> and \<open>dirtyRef\<close>, the
  solver's tree with the layout it last computed, and the positions of the groups.
  The last four fields record calls, for the statements about how often something runs:
  the calls of \<open>invalidate\<close>, of the measurement functions, of \<open>onReflow\<close> (with its
  arguments) and of \<open>reflow\<close>.
\<close>

record FlexState =
  boxes :: "BoxesItem list"
  dirty :: bool
  yoga :: YogaTree
  computedLayout :: "YogaNode \<Rightarrow> Layout"
  position :: "Group \<Rightarrow> Vector3"
  invalidated :: nat
  measured :: "MeasureCall list"
  notified :: "(real \<times> real) list"
  reflows :: nat

text \<open>
  The props of the container and its external collaborators. \<open>flexWidth\<close> and
  \<open>flexHeight\<close> are the plane projection of \<open>size\<close>; \<open>rootNode\<close> is the container's own
  solver node; \<open>rootGroup\<close> is \<open>rootGroup.current\<close>, \<open>None\<close> when the ref is missing.
  \<open>getOBBSize\<close> and \<open>getSize\<close> are the two measurements of a group's rendered content,
  and \<open>calculateLayout\<close> is the solver: a function of the tree, the root and its three
  arguments, which is what a deterministic solver is.
\<close>

record FlexEnv =
  plane :: FlexPlane
  scaleFactor :: real
  flexWidth :: real
  flexHeight :: real
  yogaDirection :: FlexYogaDirection
  onReflow :: "(real \<Rightarrow> real \<Rightarrow> Action list) option"
  disableSizeRecalc :: bool
  rootCenterAnchor :: bool
  rootNode :: YogaNode
  rootGroup :: "Group option"
  getOBBSize :: "Group \<Rightarrow> Group \<Rightarrow> Vector3"
  getSize :: "Group \<Rightarrow> Vector3"
  calculateLayout :: "YogaTree \<Rightarrow> YogaNode \<Rightarrow> real \<Rightarrow> real \<Rightarrow> nat \<Rightarrow> YogaNode \<Rightarrow> Layout"

section \<open>The scheduler: requestReflow\<close>

definition invalidate :: "FlexState \<Rightarrow> FlexState" where
  "invalidate st = st\<lparr>invalidated := Suc (invalidated st)\<rparr>"

definition requestReflow :: "FlexState \<Rightarrow> FlexState" where
  "requestReflow st = invalidate (st\<lparr>dirty := True\<rparr>)"

definition applyAction :: "FlexState \<Rightarrow> Action \<Rightarrow> FlexState" where
  "applyAction st a =
     (case a of
        RequestReflow \<Rightarrow> requestReflow st
      | RegisterBox n g fp ca \<Rightarrow> st\<lparr>boxes := fst (registerBox n g fp ca (boxes st))\<rparr>
      | UnregisterBox n \<Rightarrow> st\<lparr>boxes := unregisterBox n (boxes st)\<rparr>)"

section \<open>The reflow\<close>

text \<open>\<open>typeof v === 'number' ? v * scaleFactor : v\<close>\<close>

definition scaleValue :: "real \<Rightarrow> Value option \<Rightarrow> Value option" where
  "scaleValue sf v = (case v of Some (Num r) \<Rightarrow> Some (Num (r * sf)) | _ \<Rightarrow> v)"

text \<open>
  \<open>a || b\<close> for a value that is a number, a string or \<open>undefined\<close>: the falsy values
  are \<open>undefined\<close>, the number 0 and the empty string.
\<close>

definition truthy :: "Value option \<Rightarrow> bool" where
  "truthy v = (case v of None \<Rightarrow> False | Some (Num r) \<Rightarrow> r \<noteq> 0 | Some (Str s) \<Rightarrow> s \<noteq> [])"

definition orElse :: "Value option \<Rightarrow> Value \<Rightarrow> Value" where
  "orElse a b = (case a of None \<Rightarrow> b | Some v \<Rightarrow> if truthy a then v else b)"

text \<open>
  The measurement of the size-inference branch (lines 306 to 311): the oriented
  measurement relative to the root group when the ref is there, the axis-aligned one
  otherwise. It returns the vector written to \<open>vec\<close> and the call made.
\<close>

definition measureSize :: "FlexEnv \<Rightarrow> Group \<Rightarrow> Vector3 \<times> MeasureCall" where
  "measureSize env g =
     (case rootGroup env of
        Some r \<Rightarrow> (getOBBSize env g r, OBBSize g r)
      | None \<Rightarrow> (getSize env g, BoxSize g))"

text \<open>The body of the first \<open>forEach\<close> (lines 296 to 316), on the tree and the call record.\<close>

definition recalcSize ::
  "FlexEnv \<Rightarrow> YogaTree \<times> MeasureCall list \<Rightarrow> BoxesItem \<Rightarrow> YogaTree \<times> MeasureCall list" where
  "recalcSize env s b =
     (let y = fst s; calls = snd s;
          scaledWidth = scaleValue (scaleFactor env) (width (flexProps b));
          scaledHeight = scaleValue (scaleFactor env) (height (flexProps b))
      in case (scaledWidth, scaledHeight) of
           (Some w, Some h) \<Rightarrow> (setHeight (node b) h (setWidth (node b) w y), calls)
         | _ \<Rightarrow>
           if getChildCount y (node b) = 0 then
             (let vec = fst (measureSize env (group b))
              in (setHeight (node b)
                    (orElse scaledHeight (Num (component vec (crossAxis (plane env)) * scaleFactor env)))
                    (setWidth (node b)
                       (orElse scaledWidth (Num (component vec (mainAxis (plane env)) * scaleFactor env)))
                       y),
                  calls @ [snd (measureSize env (group b))]))
           else (y, calls))"

definition recalcSizes :: "FlexEnv \<Rightarrow> FlexState \<Rightarrow> FlexState" where
  "recalcSizes env st =
     (if \<not> disableSizeRecalc env then
        (let s = foldl (recalcSize env) (yoga st, measured st) (boxes st)
         in st\<lparr>yoga := fst s, measured := snd s\<rparr>)
      else st)"

text \<open>\<open>node.calculateLayout(flexWidth * scaleFactor, flexHeight * scaleFactor, yogaDirection_)\<close>\<close>

definition calculate :: "FlexEnv \<Rightarrow> FlexState \<Rightarrow> FlexState" where
  "calculate env st =
     st\<lparr>computedLayout :=
          calculateLayout env (yoga st) (rootNode env)
            (flexWidth env * scaleFactor env) (flexHeight env * scaleFactor env)
            (yogaDirection' (yogaDirection env))\<rparr>"

text \<open>The running bounds \<open>minX\<close>, \<open>maxX\<close>, \<open>minY\<close>, \<open>maxY\<close>, all 0 at the start.\<close>

record Extent =
  minX :: real
  maxX :: real
  minY :: real
  maxY :: real

definition extent0 :: Extent where
  "extent0 = \<lparr>minX = 0, maxX = 0, minY = 0, maxY = 0\<rparr>"

text \<open>The vector \<open>position\<close> of lines 332 to 339, from the box and its computed layout.\<close>

definition boxPosition :: "FlexEnv \<Rightarrow> real \<Rightarrow> real \<Rightarrow> Layout \<Rightarrow> BoxesItem \<Rightarrow> Vector3" where
  "boxPosition env rootWidth rootHeight l b =
     (let shift = getRootShift (rootCenterAnchor env) rootWidth rootHeight (node b);
          mainAxisShift = fst shift; crossAxisShift = snd shift
      in vectorFromObject
           (Map.empty
             (mainAxis (plane env) \<mapsto>
                (mainAxisShift + computedLeft l
                   + (if centerAnchor b then computedWidth l / 2 else 0)) / scaleFactor env,
              crossAxis (plane env) \<mapsto>
                (- (crossAxisShift + computedTop l
                   + (if centerAnchor b then computedHeight l / 2 else 0))) / scaleFactor env,
              getDepthAxis (plane env) \<mapsto> 0)))"

definition grow :: "Extent \<Rightarrow> Layout \<Rightarrow> Extent" where
  "grow e l =
     \<lparr>minX = min (minX e) (computedLeft l),
      maxX = max (maxX e) (computedLeft l + computedWidth l),
      minY = min (minY e) (computedTop l),
      maxY = max (maxY e) (computedTop l + computedHeight l)\<rparr>"

text \<open>The body of the second \<open>forEach\<close> (lines 331 to 347), on the positions and the bounds.\<close>

definition reposition ::
  "FlexEnv \<Rightarrow> (YogaNode \<Rightarrow> Layout) \<Rightarrow> (Group \<Rightarrow> Vector3) \<times> Extent \<Rightarrow> BoxesItem
     \<Rightarrow> (Group \<Rightarrow> Vector3) \<times> Extent" where
  "reposition env lay s b =
     (let rootWidth = computedWidth (lay (rootNode env));
          rootHeight = computedHeight (lay (rootNode env));
          l = lay (node b)
      in ((fst s)(group b := boxPosition env rootWidth rootHeight l b), grow (snd s) l))"

definition repositionAll ::
  "FlexEnv \<Rightarrow> FlexState \<Rightarrow> (Group \<Rightarrow> Vector3) \<times> Extent" where
  "repositionAll env st =
     foldl (reposition env (computedLayout st)) (position st, extent0) (boxes st)"

text \<open>The arguments of \<open>onReflow\<close> (line 350).\<close>

definition totalSize :: "FlexEnv \<Rightarrow> Extent \<Rightarrow> real \<times> real" where
  "totalSize env e = ((maxX e - minX e) / scaleFactor env, (maxY e - minY e) / scaleFactor env)"

text \<open>\<open>onReflow && onReflow(totalWidth, totalHeight)\<close>: the call is recorded and the listener's actions run.\<close>

definition notify :: "FlexEnv \<Rightarrow> real \<times> real \<Rightarrow> FlexState \<Rightarrow> FlexState" where
  "notify env t st =
     (case onReflow env of
        None \<Rightarrow> st
      | Some f \<Rightarrow> foldl applyAction (st\<lparr>notified := notified st @ [t]\<rparr>) (f (fst t) (snd t)))"

definition reflow :: "FlexEnv \<Rightarrow> FlexState \<Rightarrow> FlexState" where
  "reflow env st =
     (let st1 = calculate env (recalcSizes env (st\<lparr>reflows := Suc (reflows st)\<rparr>));
          r = repositionAll env st1;
          st2 = st1\<lparr>position := fst r\<rparr>
      in invalidate (notify env (totalSize env (snd r)) st2))"

text \<open>The per-frame check registered with \<open>useFrame\<close> (lines 358 to 363).\<close>

definition frame :: "FlexEnv \<Rightarrow> FlexState \<Rightarrow> FlexState" where
  "frame env st = (if dirty st then reflow env (st\<lparr>dirty := False\<rparr>) else st)"

section \<open>Notions used to state the properties\<close>

text \<open>The box gives both an explicit width and an explicit height.\<close>

definition explicitSize :: "BoxesItem \<Rightarrow> bool" where
  "explicitSize b = (width (flexProps b) \<noteq> None \<and> height (flexProps b) \<noteq> None)"

text \<open>The box is one whose content the size-inference pass measures.\<close>

definition measures :: "YogaTree \<Rightarrow> BoxesItem \<Rightarrow> bool" where
  "measures y b = (\<not> explicitSize b \<and> getChildCount y (node b) = 0)"

text \<open>The box is one whose node the size-inference pass writes a width and a height to.\<close>

definition writes :: "YogaTree \<Rightarrow> BoxesItem \<Rightarrow> bool" where
  "writes y b = (explicitSize b \<or> getChildCount y (node b) = 0)"

text \<open>The pair that a reflow started in the given state hands to \<open>onReflow\<close>.\<close>

definition reflowTotal :: "FlexEnv \<Rightarrow> FlexState \<Rightarrow> real \<times> real" where
  "reflowTotal env st =
     totalSize env (snd (repositionAll env (calculate env (recalcSizes env st))))"

text \<open>
  The total extent in the words of the spec (C6), to compare with \<open>reflowTotal\<close>: the
  minimum and the maximum are taken over the layouts of the registered boxes only.
\<close>

definition claimedTotal :: "FlexEnv \<Rightarrow> (YogaNode \<Rightarrow> Layout) \<Rightarrow> BoxesItem list \<Rightarrow> real \<times> real" where
  "claimedTotal env lay bs =
     ((Max ((\<lambda>b. computedLeft (lay (node b)) + computedWidth (lay (node b))) ` set bs)
         - Min ((\<lambda>b. computedLeft (lay (node b))) ` set bs)) / scaleFactor env,
      (Max ((\<lambda>b. computedTop (lay (node b)) + computedHeight (lay (node b))) ` set bs)
         - Min ((\<lambda>b. computedTop (lay (node b))) ` set bs)) / scaleFactor env)"

section \<open>A concrete container, to evaluate the definitions on\<close>

text \<open>
  Four boxes: one with both sizes, two leaves with a size of 0 or none, and one without
  sizes whose node has two children.
\<close>

definition boxA :: BoxesItem where
  "boxA = \<lparr>node = 1, group = 11,
            flexProps = \<lparr>width = Some (Num 1), height = Some (Num (1 / 2))\<rparr>,
            centerAnchor = False\<rparr>"

definition boxB :: BoxesItem where
  "boxB = \<lparr>node = 2, group = 12,
            flexProps = \<lparr>width = Some (Num 0), height = None\<rparr>, centerAnchor = True\<rparr>"

definition boxC :: BoxesItem where
  "boxC = \<lparr>node = 3, group = 13,
            flexProps = \<lparr>width = None, height = Some (Num 0)\<rparr>, centerAnchor = False\<rparr>"

definition boxD :: BoxesItem where
  "boxD = \<lparr>node = 4, group = 14,
            flexProps = \<lparr>width = None, height = None\<rparr>, centerAnchor = False\<rparr>"

definition demoBoxes :: "BoxesItem list" where
  "demoBoxes = [boxA, boxB, boxC, boxD]"

definition demoTree :: YogaTree where
  "demoTree =
     \<lparr>styleWidth = (\<lambda>n. None), styleHeight = (\<lambda>n. None),
      childCount = (\<lambda>n. if n = 0 then 2 else if n = 4 then 2 else 0)\<rparr>"

definition numberOr0 :: "Value option \<Rightarrow> real" where
  "numberOr0 v = (case v of Some (Num r) \<Rightarrow> r | _ \<Rightarrow> 0)"

text \<open>
  A stand-in for the external solver: the root gets the size it is given, every other
  node its own numeric width and height at an offset that grows with the node, as
  margins produce it.
\<close>

definition demoSolver ::
  "YogaTree \<Rightarrow> YogaNode \<Rightarrow> real \<Rightarrow> real \<Rightarrow> nat \<Rightarrow> YogaNode \<Rightarrow> Layout" where
  "demoSolver y r w h d n =
     (if n = r
      then \<lparr>computedLeft = 0, computedTop = 0, computedWidth = w, computedHeight = h\<rparr>
      else \<lparr>computedLeft = 10 * real n, computedTop = 5 * real n,
            computedWidth = numberOr0 (styleWidth y n),
            computedHeight = numberOr0 (styleHeight y n)\<rparr>)"

definition demoEnv :: FlexEnv where
  "demoEnv =
     \<lparr>plane = XY, scaleFactor = 100, flexWidth = 2, flexHeight = 1, yogaDirection = Ltr,
      onReflow = Some (\<lambda>w h. [RequestReflow]), disableSizeRecalc = False,
      rootCenterAnchor = False, rootNode = 0, rootGroup = Some 10,
      getOBBSize = (\<lambda>g r. Vector3 3 2 1), getSize = (\<lambda>g. Vector3 4 5 6),
      calculateLayout = demoSolver\<rparr>"

definition demoState :: FlexState where
  "demoState =
     \<lparr>boxes = demoBoxes, dirty = True, yoga = demoTree,
      computedLayout =
        (\<lambda>n. \<lparr>computedLeft = 0, computedTop = 0, computedWidth = 0, computedHeight = 0\<rparr>),
      position = (\<lambda>g. Vector3 0 0 0),
      invalidated = 0, measured = [], notified = [], reflows = 0\<rparr>"

text \<open>The same container with the first box only.\<close>

definition soloState :: FlexState where
  "soloState = demoState\<lparr>boxes := [boxA]\<rparr>"

text \<open>
  A centered container with one center-anchored child that fills it: the solver gives
  every node the root's rectangle.
\<close>

definition fillSolver ::
  "YogaTree \<Rightarrow> YogaNode \<Rightarrow> real \<Rightarrow> real \<Rightarrow> nat \<Rightarrow> YogaNode \<Rightarrow> Layout" where
  "fillSolver y r w h d n =
     \<lparr>computedLeft = 0, computedTop = 0, computedWidth = w, computedHeight = h\<rparr>"

definition fillEnv :: FlexEnv where
  "fillEnv = demoEnv\<lparr>calculateLayout := fillSolver\<rparr>"

definition centeredEnv :: FlexEnv where
  "centeredEnv = demoEnv\<lparr>rootCenterAnchor := True, calculateLayout := fillSolver\<rparr>"

definition centeredState :: FlexState where
  "centeredState = demoState\<lparr>boxes := [boxB]\<rparr>"

section \<open>Properties of the registry\<close>

lemma findIndex_range: "- 1 \<le> findIndex P xs \<and> findIndex P xs < int (length xs)"
  by (induction xs) (auto simp: Let_def)

lemma findIndex_none: "findIndex P xs = - 1 \<longleftrightarrow> (\<forall>x \<in> set xs. \<not> P x)"
proof (induction xs)
  case Nil
  then show ?case by simp
next
  case (Cons x xs)
  have "findIndex P xs + 1 \<noteq> - 1"
    using findIndex_range [of P xs] by linarith
  with Cons.IH show ?case
    by (auto simp: Let_def)
qed

lemma findIndex_hit:
  "findIndex P xs \<noteq> - 1 \<Longrightarrow> P (xs ! nat (findIndex P xs))"
proof (induction xs)
  case Nil
  then show ?case by simp
next
  case (Cons x xs)
  show ?case
  proof (cases "P x")
    case True
    then show ?thesis by simp
  next
    case False
    with Cons.prems have ne: "findIndex P xs \<noteq> - 1"
      by (auto simp: Let_def split: if_splits)
    have ge: "0 \<le> findIndex P xs"
      using findIndex_range [of P xs] ne by linarith
    have "nat (findIndex P xs + 1) = Suc (nat (findIndex P xs))"
      using ge by simp
    with False ne Cons.IH show ?thesis
      by (simp add: Let_def)
  qed
qed

lemma findIndex_first:
  "j < nat (findIndex P xs) \<Longrightarrow> findIndex P xs \<noteq> - 1 \<Longrightarrow> \<not> P (xs ! j)"
proof (induction xs arbitrary: j)
  case Nil
  then show ?case by simp
next
  case (Cons x xs)
  show ?case
  proof (cases "P x")
    case True
    with Cons.prems show ?thesis by simp
  next
    case False
    with Cons.prems have ne: "findIndex P xs \<noteq> - 1"
      by (auto simp: Let_def split: if_splits)
    have ge: "0 \<le> findIndex P xs"
      using findIndex_range [of P xs] ne by linarith
    have eq: "nat (findIndex P (x # xs)) = Suc (nat (findIndex P xs))"
      using False ne ge by (simp add: Let_def)
    show ?thesis
    proof (cases j)
      case 0
      with False show ?thesis by simp
    next
      case (Suc k)
      with Cons.prems eq have "k < nat (findIndex P xs)" by simp
      with Cons.IH ne Suc show ?thesis by simp
    qed
  qed
qed

lemma findIndex_bound:
  "findIndex P xs \<noteq> - 1 \<Longrightarrow> nat (findIndex P xs) < length xs"
  using findIndex_range [of P xs] by linarith

lemma registerBox_nodes_present:
  assumes "n \<in> node ` set bs"
  shows "map node (fst (registerBox n g fp ca bs)) = map node bs"
proof -
  let ?i = "findIndex (\<lambda>b. node b = n) bs"
  from assms have ne: "?i \<noteq> - 1"
    by (auto simp: findIndex_none)
  have hit: "node (bs ! nat ?i) = n"
    using findIndex_hit [OF ne] .
  have "map node (bs[nat ?i := \<lparr>node = n, group = g, flexProps = fp, centerAnchor = ca\<rparr>])
          = (map node bs)[nat ?i := n]"
    by (simp add: map_update)
  also have "\<dots> = map node bs"
    using hit findIndex_bound [OF ne] by (simp add: list_update_same_conv)
  finally show ?thesis
    using ne by (simp add: registerBox_def Let_def)
qed

lemma registerBox_nodes_absent:
  assumes "n \<notin> node ` set bs"
  shows "map node (fst (registerBox n g fp ca bs)) = map node bs @ [n]"
proof -
  from assms have "findIndex (\<lambda>b. node b = n) bs = - 1"
    by (auto simp: findIndex_none)
  then show ?thesis
    by (simp add: registerBox_def Let_def)
qed

lemma registerBox_keeps_member:
  "n \<in> node ` set (fst (registerBox n g fp ca bs))"
proof (cases "n \<in> node ` set bs")
  case True
  have "set (map node (fst (registerBox n g fp ca bs))) = set (map node bs)"
    using registerBox_nodes_present [OF True] by simp
  with True show ?thesis by simp
next
  case False
  have "set (map node (fst (registerBox n g fp ca bs))) = set (map node bs @ [n])"
    using registerBox_nodes_absent [OF False] by simp
  then show ?thesis by simp
qed

lemma registerBox_mono:
  "n \<in> node ` set bs \<Longrightarrow> n \<in> node ` set (fst (registerBox m g fp ca bs))"
proof -
  assume a: "n \<in> node ` set bs"
  show ?thesis
  proof (cases "m \<in> node ` set bs")
    case True
    have "set (map node (fst (registerBox m g fp ca bs))) = set (map node bs)"
      using registerBox_nodes_present [OF True] by simp
    with a show ?thesis by simp
  next
    case False
    have "set (map node (fst (registerBox m g fp ca bs))) = set (map node bs @ [m])"
      using registerBox_nodes_absent [OF False] by simp
    with a show ?thesis by simp
  qed
qed

lemma registerBox_distinct:
  "distinct (map node bs) \<Longrightarrow> distinct (map node (fst (registerBox n g fp ca bs)))"
proof (cases "n \<in> node ` set bs")
  case True
  assume "distinct (map node bs)"
  then show ?thesis using registerBox_nodes_present [OF True] by simp
next
  case False
  assume "distinct (map node bs)"
  then show ?thesis using registerBox_nodes_absent [OF False] False by simp
qed

lemma findIndex_takeWhile:
  "findIndex P xs =
     (if \<exists>x \<in> set xs. P x then int (length (takeWhile (\<lambda>x. \<not> P x) xs)) else - 1)"
  by (induction xs) (auto simp: Let_def)

lemma splice1_takeWhile:
  "\<exists>x \<in> set xs. P x \<Longrightarrow>
   splice1 (length (takeWhile (\<lambda>x. \<not> P x) xs)) xs
     = takeWhile (\<lambda>x. \<not> P x) xs @ tl (dropWhile (\<lambda>x. \<not> P x) xs)"
  by (induction xs) (auto simp: splice1_def)

lemma unregisterBox_eq:
  "unregisterBox n bs =
     takeWhile (\<lambda>b. node b \<noteq> n) bs @ tl (dropWhile (\<lambda>b. node b \<noteq> n) bs)"
proof (cases "\<exists>b \<in> set bs. node b = n")
  case True
  then show ?thesis
    using splice1_takeWhile [of bs "\<lambda>b. node b = n"]
    by (simp add: unregisterBox_def Let_def findIndex_takeWhile)
next
  case False
  then have all: "\<forall>b \<in> set bs. node b \<noteq> n" by simp
  have tw: "takeWhile (\<lambda>b. node b \<noteq> n) bs = bs"
    using all by simp
  have dw: "dropWhile (\<lambda>b. node b \<noteq> n) bs = []"
    using all by simp
  have "unregisterBox n bs = bs"
    using False by (simp add: unregisterBox_def Let_def findIndex_takeWhile)
  then show ?thesis
    by (simp only: tw dw) simp
qed

lemma remove_first_distinct:
  "distinct (map f xs) \<Longrightarrow>
   takeWhile (\<lambda>b. f b \<noteq> n) xs @ tl (dropWhile (\<lambda>b. f b \<noteq> n) xs) = filter (\<lambda>b. f b \<noteq> n) xs"
proof (induction xs)
  case Nil
  then show ?case by simp
next
  case (Cons x xs)
  show ?case
  proof (cases "f x = n")
    case True
    from Cons.prems have "f x \<notin> f ` set xs" by simp
    with True have "\<forall>b \<in> set xs. f b \<noteq> n" by blast
    then have "filter (\<lambda>b. f b \<noteq> n) xs = xs" by (simp add: filter_id_conv)
    with True show ?thesis by simp
  next
    case False
    with Cons show ?thesis by simp
  qed
qed

lemma registerAll_mono:
  "n \<in> node ` set bs \<Longrightarrow> n \<in> node ` set (registerAll rs bs)"
proof (induction rs arbitrary: bs)
  case Nil
  then show ?case by (simp add: registerAll_def)
next
  case (Cons r rs)
  obtain m g fp ca where r: "r = (m, g, fp, ca)"
    by (cases r) auto
  have "n \<in> node ` set (fst (registerBox m g fp ca bs))"
    using Cons.prems by (rule registerBox_mono)
  then have "n \<in> node ` set (registerAll rs (fst (registerBox m g fp ca bs)))"
    by (rule Cons.IH)
  then show ?case
    by (simp add: registerAll_def r)
qed

lemma registerBox_present:
  assumes "n \<in> node ` set bs"
  shows "registerBox n g fp ca bs =
           (bs[length (takeWhile (\<lambda>b. node b \<noteq> n) bs) :=
                 \<lparr>node = n, group = g, flexProps = fp, centerAnchor = ca\<rparr>], False)"
  using assms by (auto simp: registerBox_def Let_def findIndex_takeWhile)

lemma registerBox_absent:
  assumes "n \<notin> node ` set bs"
  shows "registerBox n g fp ca bs =
           (bs @ [\<lparr>node = n, group = g, flexProps = fp, centerAnchor = ca\<rparr>], True)"
  using assms by (auto simp: registerBox_def Let_def findIndex_takeWhile)

text \<open>
  C3. \<open>registerBox\<close> is an upsert keyed by the node: a node that no record has is appended
  and the call returns true; a node that a record has gets its record replaced at the
  index of that record (the first with this node), the call returns false, and the nodes
  of the array, hence its length and order, stay as they were. After a call with a node,
  every later call with the same node, whatever calls of \<open>registerBox\<close> come between,
  returns false and leaves the number of records unchanged.
\<close>

theorem registerBox_upsert:
  "registerBox n g fp ca bs =
     (if n \<in> node ` set bs
      then (bs[length (takeWhile (\<lambda>b. node b \<noteq> n) bs) :=
                 \<lparr>node = n, group = g, flexProps = fp, centerAnchor = ca\<rparr>], False)
      else (bs @ [\<lparr>node = n, group = g, flexProps = fp, centerAnchor = ca\<rparr>], True))
   \<and> map node (fst (registerBox n g fp ca bs))
       = (if n \<in> node ` set bs then map node bs else map node bs @ [n])
   \<and> snd (registerBox n g' fp' ca' (registerAll rs (fst (registerBox n g fp ca bs)))) = False
   \<and> length (fst (registerBox n g' fp' ca' (registerAll rs (fst (registerBox n g fp ca bs)))))
       = length (registerAll rs (fst (registerBox n g fp ca bs)))"
proof -
  let ?later = "registerAll rs (fst (registerBox n g fp ca bs))"
  have first: "registerBox n g fp ca bs =
     (if n \<in> node ` set bs
      then (bs[length (takeWhile (\<lambda>b. node b \<noteq> n) bs) :=
                 \<lparr>node = n, group = g, flexProps = fp, centerAnchor = ca\<rparr>], False)
      else (bs @ [\<lparr>node = n, group = g, flexProps = fp, centerAnchor = ca\<rparr>], True))"
    using registerBox_present [of n bs g fp ca] registerBox_absent [of n bs g fp ca]
    by (cases "n \<in> node ` set bs") simp_all
  have nodes: "map node (fst (registerBox n g fp ca bs))
       = (if n \<in> node ` set bs then map node bs else map node bs @ [n])"
    using registerBox_nodes_present [of n bs g fp ca] registerBox_nodes_absent [of n bs g fp ca]
    by (cases "n \<in> node ` set bs") simp_all
  have mem: "n \<in> node ` set ?later"
    using registerBox_keeps_member by (rule registerAll_mono)
  have again: "snd (registerBox n g' fp' ca' ?later) = False"
    using registerBox_present [OF mem] by simp
  have "length (map node (fst (registerBox n g' fp' ca' ?later))) = length (map node ?later)"
    using registerBox_nodes_present [OF mem] by simp
  then have len: "length (fst (registerBox n g' fp' ca' ?later)) = length ?later"
    by simp
  from first nodes again len show ?thesis
    by blast
qed

lemma unregisterBox_distinct:
  "distinct (map node bs) \<Longrightarrow> distinct (map node (unregisterBox n bs))"
  by (simp add: unregisterBox_eq remove_first_distinct distinct_map_filter)

text \<open>
  C9. \<open>unregisterBox\<close> removes the first record with the given node and keeps the records
  before and after it in their order; the array gets one shorter when a record has the
  node and is returned as it is when none has. When the nodes of the array are distinct,
  as \<open>registerBox\<close> keeps them, what remains are exactly the records with another node.
  The function has no failing branch.
\<close>

theorem unregisterBox_removes:
  "unregisterBox n bs
     = takeWhile (\<lambda>b. node b \<noteq> n) bs @ tl (dropWhile (\<lambda>b. node b \<noteq> n) bs)
   \<and> (if n \<in> node ` set bs then Suc (length (unregisterBox n bs)) = length bs
       else unregisterBox n bs = bs)
   \<and> (distinct (map node bs) \<longrightarrow> unregisterBox n bs = filter (\<lambda>b. node b \<noteq> n) bs)"
proof -
  let ?P = "\<lambda>b. node b \<noteq> n"
  have eq: "unregisterBox n bs = takeWhile ?P bs @ tl (dropWhile ?P bs)"
    by (rule unregisterBox_eq)
  have len: "if n \<in> node ` set bs then Suc (length (unregisterBox n bs)) = length bs
       else unregisterBox n bs = bs"
  proof (cases "n \<in> node ` set bs")
    case True
    then have ne: "dropWhile ?P bs \<noteq> []"
      by auto
    have "length (takeWhile ?P bs) + length (dropWhile ?P bs) = length bs"
      by (metis length_append takeWhile_dropWhile_id)
    moreover have "length (dropWhile ?P bs) = Suc (length (tl (dropWhile ?P bs)))"
      using ne by (cases "dropWhile ?P bs") simp_all
    moreover have "length (unregisterBox n bs)
        = length (takeWhile ?P bs) + length (tl (dropWhile ?P bs))"
      by (simp only: eq length_append)
    ultimately have "Suc (length (unregisterBox n bs)) = length bs"
      by linarith
    with True show ?thesis by simp
  next
    case False
    then have "findIndex (\<lambda>b. node b = n) bs = - 1"
      by (auto simp: findIndex_none)
    then have "unregisterBox n bs = bs"
      by (simp add: unregisterBox_def Let_def)
    with False show ?thesis by simp
  qed
  have "distinct (map node bs) \<longrightarrow> unregisterBox n bs = filter ?P bs"
    by (simp add: eq remove_first_distinct)
  with eq len show ?thesis
    by blast
qed

theorem unregisterBox_removes_witness:
  "distinct (map node
      [\<lparr>node = 1, group = 10, flexProps = \<lparr>width = None, height = None\<rparr>, centerAnchor = False\<rparr>,
       \<lparr>node = 2, group = 20, flexProps = \<lparr>width = None, height = None\<rparr>, centerAnchor = True\<rparr>,
       \<lparr>node = 3, group = 30, flexProps = \<lparr>width = None, height = None\<rparr>, centerAnchor = False\<rparr>])
   \<and> unregisterBox 2
      [\<lparr>node = 1, group = 10, flexProps = \<lparr>width = None, height = None\<rparr>, centerAnchor = False\<rparr>,
       \<lparr>node = 2, group = 20, flexProps = \<lparr>width = None, height = None\<rparr>, centerAnchor = True\<rparr>,
       \<lparr>node = 3, group = 30, flexProps = \<lparr>width = None, height = None\<rparr>, centerAnchor = False\<rparr>]
     = [\<lparr>node = 1, group = 10, flexProps = \<lparr>width = None, height = None\<rparr>, centerAnchor = False\<rparr>,
        \<lparr>node = 3, group = 30, flexProps = \<lparr>width = None, height = None\<rparr>, centerAnchor = False\<rparr>]"
  using unregisterBox_removes [of 2
      "[\<lparr>node = 1, group = 10, flexProps = \<lparr>width = None, height = None\<rparr>, centerAnchor = False\<rparr>,
       \<lparr>node = 2, group = 20, flexProps = \<lparr>width = None, height = None\<rparr>, centerAnchor = True\<rparr>,
       \<lparr>node = 3, group = 30, flexProps = \<lparr>width = None, height = None\<rparr>, centerAnchor = False\<rparr>]"]
  by simp

section \<open>Properties of the size-inference pass\<close>

lemma scaleValue_simps [simp]:
  "scaleValue sf None = None"
  "scaleValue sf (Some (Num r)) = Some (Num (r * sf))"
  "scaleValue sf (Some (Str t)) = Some (Str t)"
  by (simp_all add: scaleValue_def)

lemma scaleValue_None [simp]: "scaleValue sf v = None \<longleftrightarrow> v = None"
  by (auto simp: scaleValue_def split: option.splits Value.splits)

lemma recalcSize_explicit:
  assumes "explicitSize b"
  shows "recalcSize env s b =
           (setHeight (node b) (the (scaleValue (scaleFactor env) (height (flexProps b))))
              (setWidth (node b) (the (scaleValue (scaleFactor env) (width (flexProps b)))) (fst s)),
            snd s)"
  using assms
  by (auto simp: recalcSize_def explicitSize_def Let_def split: option.splits)

lemma recalcSize_measured:
  assumes "\<not> explicitSize b" and "getChildCount (fst s) (node b) = 0"
  shows "recalcSize env s b =
           (setHeight (node b)
              (orElse (scaleValue (scaleFactor env) (height (flexProps b)))
                 (Num (component (fst (measureSize env (group b))) (crossAxis (plane env))
                         * scaleFactor env)))
              (setWidth (node b)
                 (orElse (scaleValue (scaleFactor env) (width (flexProps b)))
                    (Num (component (fst (measureSize env (group b))) (mainAxis (plane env))
                            * scaleFactor env)))
                 (fst s)),
            snd s @ [snd (measureSize env (group b))])"
  using assms
  by (auto simp: recalcSize_def explicitSize_def Let_def split: option.splits)

lemma recalcSize_parent:
  assumes "\<not> explicitSize b" and "getChildCount (fst s) (node b) \<noteq> 0"
  shows "recalcSize env s b = s"
  using assms
  by (auto simp: recalcSize_def explicitSize_def Let_def split: option.splits)

lemma childCount_set [simp]:
  "childCount (setWidth n v y) = childCount y" "childCount (setHeight n v y) = childCount y"
  by (simp_all add: setWidth_def setHeight_def)

lemma recalcSize_childCount [simp]:
  "childCount (fst (recalcSize env s b)) = childCount (fst s)"
proof (cases "explicitSize b")
  case True
  then show ?thesis by (simp add: recalcSize_explicit)
next
  case False
  then show ?thesis
    by (cases "getChildCount (fst s) (node b) = 0")
       (simp_all add: recalcSize_measured recalcSize_parent)
qed

lemma recalcSize_other:
  assumes "n \<noteq> node b"
  shows "styleWidth (fst (recalcSize env s b)) n = styleWidth (fst s) n"
    and "styleHeight (fst (recalcSize env s b)) n = styleHeight (fst s) n"
proof -
  have "styleWidth (fst (recalcSize env s b)) n = styleWidth (fst s) n
      \<and> styleHeight (fst (recalcSize env s b)) n = styleHeight (fst s) n"
  proof (cases "explicitSize b")
    case True
    with assms show ?thesis
      by (simp add: recalcSize_explicit setWidth_def setHeight_def)
  next
    case False
    with assms show ?thesis
      by (cases "getChildCount (fst s) (node b) = 0")
         (simp_all add: recalcSize_measured recalcSize_parent setWidth_def setHeight_def)
  qed
  then show "styleWidth (fst (recalcSize env s b)) n = styleWidth (fst s) n"
    and "styleHeight (fst (recalcSize env s b)) n = styleHeight (fst s) n"
    by simp_all
qed

lemma recalcSize_cong:
  assumes "childCount (fst s) (node b) = childCount (fst t) (node b)"
    and "styleWidth (fst s) (node b) = styleWidth (fst t) (node b)"
    and "styleHeight (fst s) (node b) = styleHeight (fst t) (node b)"
  shows "styleWidth (fst (recalcSize env s b)) (node b) = styleWidth (fst (recalcSize env t b)) (node b)
       \<and> styleHeight (fst (recalcSize env s b)) (node b) = styleHeight (fst (recalcSize env t b)) (node b)"
proof (cases "explicitSize b")
  case True
  then show ?thesis
    by (simp add: recalcSize_explicit setWidth_def setHeight_def)
next
  case False
  show ?thesis
  proof (cases "getChildCount (fst s) (node b) = 0")
    case True
    with assms(1) have "getChildCount (fst t) (node b) = 0"
      by (simp add: getChildCount_def)
    with True False show ?thesis
      by (simp add: recalcSize_measured setWidth_def setHeight_def)
  next
    case nz: False
    with assms(1) have "getChildCount (fst t) (node b) \<noteq> 0"
      by (simp add: getChildCount_def)
    with nz False assms show ?thesis
      by (simp add: recalcSize_parent)
  qed
qed

lemma sizes_childCount [simp]:
  "childCount (fst (foldl (recalcSize env) s bs)) = childCount (fst s)"
  by (induction bs arbitrary: s) simp_all

lemma sizes_other:
  "n \<notin> node ` set bs \<Longrightarrow>
   styleWidth (fst (foldl (recalcSize env) s bs)) n = styleWidth (fst s) n
   \<and> styleHeight (fst (foldl (recalcSize env) s bs)) n = styleHeight (fst s) n"
proof (induction bs arbitrary: s)
  case Nil
  then show ?case by simp
next
  case (Cons x xs)
  then have "n \<noteq> node x" and "n \<notin> node ` set xs" by auto
  with Cons.IH [of "recalcSize env s x"] show ?case
    by (simp add: recalcSize_other)
qed

lemma sizes_at:
  "b \<in> set bs \<Longrightarrow> distinct (map node bs) \<Longrightarrow>
   styleWidth (fst (foldl (recalcSize env) s bs)) (node b)
     = styleWidth (fst (recalcSize env s b)) (node b)
   \<and> styleHeight (fst (foldl (recalcSize env) s bs)) (node b)
     = styleHeight (fst (recalcSize env s b)) (node b)"
proof (induction bs arbitrary: s)
  case Nil
  then show ?case by simp
next
  case (Cons x xs)
  show ?case
  proof (cases "x = b")
    case True
    with Cons.prems have "node b \<notin> node ` set xs" by simp
    with True show ?thesis
      using sizes_other [of "node b" xs env "recalcSize env s b"] by simp
  next
    case False
    with Cons.prems have mem: "b \<in> set xs" and d: "distinct (map node xs)"
      by auto
    from Cons.prems have "node x \<notin> node ` set xs" by simp
    with mem have ne: "node b \<noteq> node x" by (metis imageI)
    have "styleWidth (fst (recalcSize env (recalcSize env s x) b)) (node b)
            = styleWidth (fst (recalcSize env s b)) (node b)
        \<and> styleHeight (fst (recalcSize env (recalcSize env s x) b)) (node b)
            = styleHeight (fst (recalcSize env s b)) (node b)"
      by (rule recalcSize_cong) (simp_all add: recalcSize_other [OF ne])
    with Cons.IH [OF mem d, of "recalcSize env s x"] show ?thesis
      by simp
  qed
qed

lemma measures_step [simp]: "measures (fst (recalcSize env s x)) b = measures (fst s) b"
  by (simp add: measures_def getChildCount_def)

lemma sizes_calls:
  "snd (foldl (recalcSize env) s bs)
     = snd s @ map (\<lambda>b. snd (measureSize env (group b))) (filter (measures (fst s)) bs)"
proof (induction bs arbitrary: s)
  case Nil
  then show ?case by simp
next
  case (Cons x xs)
  have step: "snd (recalcSize env s x)
      = snd s @ (if measures (fst s) x then [snd (measureSize env (group x))] else [])"
  proof (cases "explicitSize x")
    case True
    then show ?thesis by (simp add: recalcSize_explicit measures_def)
  next
    case False
    then show ?thesis
      by (cases "getChildCount (fst s) (node x) = 0")
         (simp_all add: recalcSize_measured recalcSize_parent measures_def)
  qed
  show ?case
    by (simp add: Cons.IH [of "recalcSize env s x"] step)
qed

lemma recalcSizes_yoga:
  "\<not> disableSizeRecalc env \<Longrightarrow>
   yoga (recalcSizes env st) = fst (foldl (recalcSize env) (yoga st, measured st) (boxes st))"
  by (simp add: recalcSizes_def Let_def)

lemma recalcSizes_measured:
  "measured (recalcSizes env st)
     = measured st @ (if disableSizeRecalc env then []
         else map (\<lambda>b. snd (measureSize env (group b))) (filter (measures (yoga st)) (boxes st)))"
  by (simp add: recalcSizes_def Let_def sizes_calls)

text \<open>
  C4. In the size-inference pass, a registered box whose props give both a width and a
  height has exactly these values, numbers multiplied by the scale factor, on its solver
  node afterwards. Its iteration of the loop adds no measurement call, and the calls of
  the whole pass are those of the boxes that are measured, of which it is none.
  The nodes of the registry are distinct, which \<open>registerBox\<close> and \<open>unregisterBox\<close>
  maintain (\<open>registerBox_distinct\<close>, \<open>unregisterBox_distinct\<close>).
\<close>

theorem explicit_size_verbatim:
  assumes "b \<in> set (boxes st)" and "distinct (map node (boxes st))"
    and "\<not> disableSizeRecalc env"
    and "width (flexProps b) \<noteq> None" and "height (flexProps b) \<noteq> None"
  shows "styleWidth (yoga (recalcSizes env st)) (node b)
           = scaleValue (scaleFactor env) (width (flexProps b))
       \<and> styleHeight (yoga (recalcSizes env st)) (node b)
           = scaleValue (scaleFactor env) (height (flexProps b))
       \<and> snd (recalcSize env (y, calls) b) = calls
       \<and> \<not> measures (yoga st) b
       \<and> measured (recalcSizes env st)
           = measured st @ map (\<lambda>b. snd (measureSize env (group b)))
                             (filter (measures (yoga st)) (boxes st))"
proof -
  from assms(4,5) have ex: "explicitSize b"
    by (simp add: explicitSize_def)
  let ?s = "(yoga st, measured st)"
  have at: "styleWidth (yoga (recalcSizes env st)) (node b)
              = styleWidth (fst (recalcSize env ?s b)) (node b)
          \<and> styleHeight (yoga (recalcSizes env st)) (node b)
              = styleHeight (fst (recalcSize env ?s b)) (node b)"
    using sizes_at [OF assms(1,2), of env ?s] assms(3)
    by (simp add: recalcSizes_yoga)
  obtain w h where wh: "scaleValue (scaleFactor env) (width (flexProps b)) = Some w"
      "scaleValue (scaleFactor env) (height (flexProps b)) = Some h"
    using assms(4,5) by (metis not_None_eq scaleValue_None)
  have w: "styleWidth (fst (recalcSize env ?s b)) (node b) = Some w"
    by (simp add: recalcSize_explicit [OF ex] wh setWidth_def setHeight_def)
  have h: "styleHeight (fst (recalcSize env ?s b)) (node b) = Some h"
    by (simp add: recalcSize_explicit [OF ex] wh setWidth_def setHeight_def)
  have c: "snd (recalcSize env (y, calls) b) = calls"
    by (simp add: recalcSize_explicit [OF ex])
  have m: "\<not> measures (yoga st) b"
    using ex by (simp add: measures_def)
  have l: "measured (recalcSizes env st)
           = measured st @ map (\<lambda>b. snd (measureSize env (group b)))
                             (filter (measures (yoga st)) (boxes st))"
    using assms(3) by (simp add: recalcSizes_measured)
  from at w h wh c m l show ?thesis
    by simp
qed

lemmas demo_defs = demoEnv_def demoState_def demoBoxes_def demoTree_def demoSolver_def numberOr0_def
  boxA_def boxB_def boxC_def boxD_def

theorem explicit_size_verbatim_witness:
  "boxA \<in> set (boxes demoState) \<and> distinct (map node (boxes demoState))
   \<and> \<not> disableSizeRecalc demoEnv
   \<and> width (flexProps (boxA)) \<noteq> None \<and> height (flexProps (boxA)) \<noteq> None
   \<and> styleWidth (yoga (recalcSizes demoEnv demoState)) 1 = Some (Num 100)
   \<and> styleHeight (yoga (recalcSizes demoEnv demoState)) 1 = Some (Num 50)
   \<and> measured (recalcSizes demoEnv demoState) = [OBBSize 12 10, OBBSize 13 10]"
  using explicit_size_verbatim [of "boxA" demoState demoEnv]
  by (simp add: demo_defs measures_def explicitSize_def getChildCount_def measureSize_def)

text \<open>
  C8. A registered box that lacks a width or a height and whose solver node has children
  is passed over by the size-inference pass: the width and height of its node stay what
  they were, its iteration changes neither the tree nor the record of measurement calls,
  and the calls of the whole pass are those of the measured boxes, of which it is none.
  The nodes of the registry are distinct, as the registry keeps them.
\<close>

theorem parent_size_untouched:
  assumes "b \<in> set (boxes st)" and "distinct (map node (boxes st))"
    and "width (flexProps b) = None \<or> height (flexProps b) = None"
    and "0 < getChildCount (yoga st) (node b)"
  shows "styleWidth (yoga (recalcSizes env st)) (node b) = styleWidth (yoga st) (node b)
       \<and> styleHeight (yoga (recalcSizes env st)) (node b) = styleHeight (yoga st) (node b)
       \<and> recalcSize env (yoga st, calls) b = (yoga st, calls)
       \<and> \<not> measures (yoga st) b
       \<and> measured (recalcSizes env st)
           = measured st @ (if disableSizeRecalc env then []
               else map (\<lambda>b. snd (measureSize env (group b)))
                      (filter (measures (yoga st)) (boxes st)))"
proof -
  from assms(3) have nex: "\<not> explicitSize b"
    by (auto simp: explicitSize_def)
  let ?s = "(yoga st, measured st)"
  have step: "recalcSize env (yoga st, cs) b = (yoga st, cs)" for cs
    using recalcSize_parent [OF nex, of "(yoga st, cs)" env] assms(4) by simp
  have keep: "styleWidth (yoga (recalcSizes env st)) (node b) = styleWidth (yoga st) (node b)
       \<and> styleHeight (yoga (recalcSizes env st)) (node b) = styleHeight (yoga st) (node b)"
  proof (cases "disableSizeRecalc env")
    case True
    then show ?thesis by (simp add: recalcSizes_def)
  next
    case False
    then show ?thesis
      using sizes_at [OF assms(1,2), of env ?s] step [of "measured st"]
      by (simp add: recalcSizes_yoga)
  qed
  have m: "\<not> measures (yoga st) b"
    using assms(4) by (simp add: measures_def)
  from keep step [of calls] m recalcSizes_measured [of env st] show ?thesis
    by simp
qed

theorem parent_size_untouched_witness:
  "boxD \<in> set (boxes demoState) \<and> distinct (map node (boxes demoState))
   \<and> (width (flexProps (boxD)) = None \<or> height (flexProps (boxD)) = None)
   \<and> 0 < getChildCount (yoga demoState) (node (boxD))
   \<and> styleWidth (yoga (recalcSizes demoEnv demoState)) 4 = None
   \<and> styleHeight (yoga (recalcSizes demoEnv demoState)) 4 = None
   \<and> measured (recalcSizes demoEnv demoState) = [OBBSize 12 10, OBBSize 13 10]"
  using parent_size_untouched [of "boxD" demoState demoEnv]
  by (simp add: demo_defs measures_def explicitSize_def getChildCount_def measureSize_def)

lemma orElse_zero [simp]: "orElse (Some (Num 0)) v = v" "orElse None v = v"
  by (simp_all add: orElse_def truthy_def)

text \<open>
  C10. In the measurement branch (a leaf box that lacks a width or a height), a numeric
  width of 0 is treated as absent: the node's width becomes the measured extent along the
  main axis times the scale factor. The same holds for a height of 0 and the cross axis.
  The nodes of the registry are distinct, as the registry keeps them.
\<close>

theorem zero_size_is_measured:
  assumes "b \<in> set (boxes st)" and "distinct (map node (boxes st))"
    and "\<not> disableSizeRecalc env"
    and "width (flexProps b) = None \<or> height (flexProps b) = None"
    and "getChildCount (yoga st) (node b) = 0"
  shows "(width (flexProps b) = Some (Num 0) \<longrightarrow>
            styleWidth (yoga (recalcSizes env st)) (node b)
              = Some (Num (component (fst (measureSize env (group b))) (mainAxis (plane env))
                             * scaleFactor env)))
       \<and> (height (flexProps b) = Some (Num 0) \<longrightarrow>
            styleHeight (yoga (recalcSizes env st)) (node b)
              = Some (Num (component (fst (measureSize env (group b))) (crossAxis (plane env))
                             * scaleFactor env)))"
proof -
  from assms(4) have nex: "\<not> explicitSize b"
    by (auto simp: explicitSize_def)
  let ?s = "(yoga st, measured st)"
  have at: "styleWidth (yoga (recalcSizes env st)) (node b)
              = styleWidth (fst (recalcSize env ?s b)) (node b)
          \<and> styleHeight (yoga (recalcSizes env st)) (node b)
              = styleHeight (fst (recalcSize env ?s b)) (node b)"
    using sizes_at [OF assms(1,2), of env ?s] assms(3)
    by (simp add: recalcSizes_yoga)
  have step: "recalcSize env ?s b =
           (setHeight (node b)
              (orElse (scaleValue (scaleFactor env) (height (flexProps b)))
                 (Num (component (fst (measureSize env (group b))) (crossAxis (plane env))
                         * scaleFactor env)))
              (setWidth (node b)
                 (orElse (scaleValue (scaleFactor env) (width (flexProps b)))
                    (Num (component (fst (measureSize env (group b))) (mainAxis (plane env))
                            * scaleFactor env)))
                 (fst ?s)),
            snd ?s @ [snd (measureSize env (group b))])"
    using assms(5) by (intro recalcSize_measured [OF nex]) simp
  show ?thesis
    using at by (simp add: step setWidth_def setHeight_def)
qed

theorem zero_size_is_measured_witness:
  "boxB \<in> set (boxes demoState) \<and> boxC \<in> set (boxes demoState)
   \<and> distinct (map node (boxes demoState)) \<and> \<not> disableSizeRecalc demoEnv
   \<and> width (flexProps (boxB)) = Some (Num 0) \<and> height (flexProps (boxB)) = None
   \<and> width (flexProps (boxC)) = None \<and> height (flexProps (boxC)) = Some (Num 0)
   \<and> getChildCount (yoga demoState) (node (boxB)) = 0
   \<and> getChildCount (yoga demoState) (node (boxC)) = 0
   \<and> styleWidth (yoga (recalcSizes demoEnv demoState)) 2 = Some (Num 300)
   \<and> styleHeight (yoga (recalcSizes demoEnv demoState)) 3 = Some (Num 200)"
  using zero_size_is_measured [of "boxB" demoState demoEnv]
    zero_size_is_measured [of "boxC" demoState demoEnv]
  by (simp add: demo_defs getChildCount_def measureSize_def)

section \<open>What each stage of the reflow changes\<close>

lemma applyAction_fields [simp]:
  "yoga (applyAction st a) = yoga st"
  "computedLayout (applyAction st a) = computedLayout st"
  "position (applyAction st a) = position st"
  "measured (applyAction st a) = measured st"
  "notified (applyAction st a) = notified st"
  "reflows (applyAction st a) = reflows st"
  "dirty (applyAction st a) = (dirty st \<or> a = RequestReflow)"
  by (cases a, simp_all add: applyAction_def requestReflow_def invalidate_def)+

lemma actions_fields [simp]:
  "yoga (foldl applyAction st as) = yoga st"
  "computedLayout (foldl applyAction st as) = computedLayout st"
  "position (foldl applyAction st as) = position st"
  "measured (foldl applyAction st as) = measured st"
  "notified (foldl applyAction st as) = notified st"
  "reflows (foldl applyAction st as) = reflows st"
  "dirty (foldl applyAction st as) = (dirty st \<or> RequestReflow \<in> set as)"
proof -
  have "yoga (foldl applyAction st as) = yoga st
    \<and> computedLayout (foldl applyAction st as) = computedLayout st
    \<and> position (foldl applyAction st as) = position st
    \<and> measured (foldl applyAction st as) = measured st
    \<and> notified (foldl applyAction st as) = notified st
    \<and> reflows (foldl applyAction st as) = reflows st
    \<and> dirty (foldl applyAction st as) = (dirty st \<or> RequestReflow \<in> set as)"
  proof (induction as arbitrary: st)
    case Nil
    then show ?case by simp
  next
    case (Cons a as)
    show ?case
      using Cons.IH [of "applyAction st a"] by auto
  qed
  then show "yoga (foldl applyAction st as) = yoga st"
  "computedLayout (foldl applyAction st as) = computedLayout st"
  "position (foldl applyAction st as) = position st"
  "measured (foldl applyAction st as) = measured st"
  "notified (foldl applyAction st as) = notified st"
  "reflows (foldl applyAction st as) = reflows st"
  "dirty (foldl applyAction st as) = (dirty st \<or> RequestReflow \<in> set as)"
    by simp_all
qed

lemma notify_fields [simp]:
  "yoga (notify env t st) = yoga st"
  "computedLayout (notify env t st) = computedLayout st"
  "position (notify env t st) = position st"
  "measured (notify env t st) = measured st"
  "reflows (notify env t st) = reflows st"
  by (simp_all add: notify_def split: option.splits)

lemma notify_notified:
  "notified (notify env t st)
     = notified st @ (case onReflow env of None \<Rightarrow> [] | Some f \<Rightarrow> [t])"
  by (simp add: notify_def split: option.splits)

lemma notify_dirty:
  "dirty (notify env t st)
     = (dirty st \<or> (\<exists>f. onReflow env = Some f \<and> RequestReflow \<in> set (f (fst t) (snd t))))"
  by (simp add: notify_def split: option.splits)

lemma invalidate_fields [simp]:
  "boxes (invalidate st) = boxes st"
  "yoga (invalidate st) = yoga st"
  "computedLayout (invalidate st) = computedLayout st"
  "position (invalidate st) = position st"
  "measured (invalidate st) = measured st"
  "notified (invalidate st) = notified st"
  "reflows (invalidate st) = reflows st"
  "dirty (invalidate st) = dirty st"
  by (simp_all add: invalidate_def)

lemma recalcSizes_fields [simp]:
  "boxes (recalcSizes env st) = boxes st"
  "computedLayout (recalcSizes env st) = computedLayout st"
  "position (recalcSizes env st) = position st"
  "notified (recalcSizes env st) = notified st"
  "reflows (recalcSizes env st) = reflows st"
  "dirty (recalcSizes env st) = dirty st"
  by (simp_all add: recalcSizes_def Let_def)

lemma calculate_fields [simp]:
  "boxes (calculate env st) = boxes st"
  "yoga (calculate env st) = yoga st"
  "position (calculate env st) = position st"
  "measured (calculate env st) = measured st"
  "notified (calculate env st) = notified st"
  "reflows (calculate env st) = reflows st"
  "dirty (calculate env st) = dirty st"
  by (simp_all add: calculate_def)

lemma calculate_layout:
  "computedLayout (calculate env st)
     = calculateLayout env (yoga st) (rootNode env)
         (flexWidth env * scaleFactor env) (flexHeight env * scaleFactor env)
         (yogaDirection' (yogaDirection env))"
  by (simp add: calculate_def)

lemma recalcSizes_upd [simp]:
  "recalcSizes env (st\<lparr>reflows := k\<rparr>) = (recalcSizes env st)\<lparr>reflows := k\<rparr>"
  "recalcSizes env (st\<lparr>dirty := d\<rparr>) = (recalcSizes env st)\<lparr>dirty := d\<rparr>"
  "recalcSizes env (st\<lparr>invalidated := i\<rparr>) = (recalcSizes env st)\<lparr>invalidated := i\<rparr>"
  by (simp_all add: recalcSizes_def Let_def)

lemma calculate_upd [simp]:
  "calculate env (st\<lparr>reflows := k\<rparr>) = (calculate env st)\<lparr>reflows := k\<rparr>"
  "calculate env (st\<lparr>dirty := d\<rparr>) = (calculate env st)\<lparr>dirty := d\<rparr>"
  "calculate env (st\<lparr>invalidated := i\<rparr>) = (calculate env st)\<lparr>invalidated := i\<rparr>"
  by (simp_all add: calculate_def)

lemma repositionAll_upd [simp]:
  "repositionAll env (st\<lparr>reflows := k\<rparr>) = repositionAll env st"
  "repositionAll env (st\<lparr>dirty := d\<rparr>) = repositionAll env st"
  "repositionAll env (st\<lparr>invalidated := i\<rparr>) = repositionAll env st"
  by (simp_all add: repositionAll_def)

lemma reflowTotal_upd [simp]:
  "reflowTotal env (st\<lparr>reflows := k\<rparr>) = reflowTotal env st"
  "reflowTotal env (st\<lparr>dirty := d\<rparr>) = reflowTotal env st"
  "reflowTotal env (st\<lparr>invalidated := i\<rparr>) = reflowTotal env st"
  by (simp_all add: reflowTotal_def)

lemma reflow_yoga: "yoga (reflow env st) = yoga (recalcSizes env st)"
  by (simp add: reflow_def Let_def)

lemma reflow_layout:
  "computedLayout (reflow env st) = computedLayout (calculate env (recalcSizes env st))"
  by (simp add: reflow_def Let_def)

lemma reflow_position:
  "position (reflow env st) = fst (repositionAll env (calculate env (recalcSizes env st)))"
  by (simp add: reflow_def Let_def)

lemma reflow_reflows: "reflows (reflow env st) = Suc (reflows st)"
  by (simp add: reflow_def Let_def)

lemma reflow_notified:
  "notified (reflow env st)
     = notified st @ (case onReflow env of None \<Rightarrow> [] | Some f \<Rightarrow> [reflowTotal env st])"
  by (simp add: reflow_def Let_def notify_notified reflowTotal_def split: option.splits)

lemma reflow_dirty:
  "dirty (reflow env st)
     = (dirty st \<or> (\<exists>f. onReflow env = Some f
          \<and> RequestReflow \<in> set (f (fst (reflowTotal env st)) (snd (reflowTotal env st)))))"
  by (simp add: reflow_def Let_def notify_dirty reflowTotal_def)

section \<open>The scheduler\<close>

lemma requestReflow_funpow:
  "(requestReflow ^^ N) st
     = (if N = 0 then st else st\<lparr>dirty := True, invalidated := invalidated st + N\<rparr>)"
proof (induction N)
  case 0
  then show ?case by simp
next
  case (Suc N)
  then show ?case
    by (simp add: requestReflow_def invalidate_def)
qed

text \<open>
  C2. Any number N of \<open>requestReflow\<close> calls, N at least 1, followed by the per-frame
  check runs the reflow exactly once. The flag is cleared before the reflow, so after the
  check it is set exactly when the listener called \<open>requestReflow\<close> during the reflow;
  then the next check runs exactly one more reflow, and otherwise the next check does
  nothing.
\<close>

theorem reflow_coalesced:
  assumes "0 < N"
  shows "reflows (frame env ((requestReflow ^^ N) st)) = Suc (reflows st)
       \<and> dirty (frame env ((requestReflow ^^ N) st))
           = (\<exists>f. onReflow env = Some f
                \<and> RequestReflow \<in> set (f (fst (reflowTotal env st)) (snd (reflowTotal env st))))
       \<and> (if dirty (frame env ((requestReflow ^^ N) st))
           then reflows (frame env' (frame env ((requestReflow ^^ N) st))) = Suc (Suc (reflows st))
           else frame env' (frame env ((requestReflow ^^ N) st))
                  = frame env ((requestReflow ^^ N) st))"
proof -
  let ?st0 = "(requestReflow ^^ N) st"
  from assms have st0: "?st0 = st\<lparr>dirty := True, invalidated := invalidated st + N\<rparr>"
    by (simp add: requestReflow_funpow)
  have fr: "frame env ?st0 = reflow env (?st0\<lparr>dirty := False\<rparr>)"
    by (simp add: st0 frame_def)
  have one: "reflows (frame env ?st0) = Suc (reflows st)"
    by (simp add: fr reflow_reflows) (simp add: st0)
  have flag: "dirty (frame env ?st0)
           = (\<exists>f. onReflow env = Some f
                \<and> RequestReflow \<in> set (f (fst (reflowTotal env st)) (snd (reflowTotal env st))))"
    by (simp add: fr reflow_dirty) (simp add: st0)
  have nxt: "if dirty (frame env ?st0)
           then reflows (frame env' (frame env ?st0)) = Suc (Suc (reflows st))
           else frame env' (frame env ?st0) = frame env ?st0"
  proof (cases "dirty (frame env ?st0)")
    case True
    then have "frame env' (frame env ?st0) = reflow env' ((frame env ?st0)\<lparr>dirty := False\<rparr>)"
      by (simp add: frame_def)
    then have "reflows (frame env' (frame env ?st0)) = Suc (reflows (frame env ?st0))"
      by (simp add: reflow_reflows)
    with True one show ?thesis by simp
  next
    case False
    then show ?thesis by (simp add: frame_def)
  qed
  from one flag nxt show ?thesis by blast
qed

theorem reflow_coalesced_witness:
  "(0::nat) < 3
   \<and> reflows (frame demoEnv ((requestReflow ^^ 3) demoState)) = 1
   \<and> dirty (frame demoEnv ((requestReflow ^^ 3) demoState))
   \<and> reflows (frame demoEnv (frame demoEnv ((requestReflow ^^ 3) demoState))) = 2"
proof -
  have h: "(0::nat) < 3" by simp
  have "onReflow demoEnv = Some (\<lambda>w h. [RequestReflow])"
    by (simp add: demoEnv_def)
  moreover have "reflows demoState = 0"
    by (simp add: demoState_def)
  ultimately show ?thesis
    using reflow_coalesced [OF h, where env = demoEnv and st = demoState and env' = demoEnv]
    by simp
qed

section \<open>Positions\<close>

lemma plane_keys: "{mainAxis p, crossAxis p, getDepthAxis p} = {X, Y, Z}"
  by (cases p) auto

lemma boxPosition_components:
  "component (boxPosition env rw rh l b) (mainAxis (plane env))
     = (fst (getRootShift (rootCenterAnchor env) rw rh (node b)) + computedLeft l
          + (if centerAnchor b then computedWidth l / 2 else 0)) / scaleFactor env"
  "component (boxPosition env rw rh l b) (crossAxis (plane env))
     = (- (snd (getRootShift (rootCenterAnchor env) rw rh (node b)) + computedTop l
          + (if centerAnchor b then computedHeight l / 2 else 0))) / scaleFactor env"
  "component (boxPosition env rw rh l b) (getDepthAxis (plane env)) = 0"
  by (cases "plane env"; simp add: boxPosition_def vectorFromObject_def getKey_def Let_def)+

lemma reposition_positions:
  "fst (foldl (reposition env lay) (p, e) bs) g
     = (case find (\<lambda>b. group b = g) (rev bs) of
          None \<Rightarrow> p g
        | Some b \<Rightarrow> boxPosition env (computedWidth (lay (rootNode env)))
                     (computedHeight (lay (rootNode env))) (lay (node b)) b)"
  by (induction bs rule: rev_induct) (simp_all add: reposition_def Let_def)

lemma find_last_distinct:
  "b \<in> set bs \<Longrightarrow> distinct (map group bs) \<Longrightarrow> find (\<lambda>x. group x = group b) (rev bs) = Some b"
proof (induction bs rule: rev_induct)
  case Nil
  then show ?case by simp
next
  case (snoc x xs)
  show ?case
  proof (cases "group x = group b")
    case True
    have "x = b"
    proof (rule ccontr)
      assume "x \<noteq> b"
      with snoc.prems(1) have "b \<in> set xs" by simp
      then have "group b \<in> group ` set xs" by (rule imageI)
      with True snoc.prems(2) show False by simp
    qed
    then show ?thesis by simp
  next
    case False
    with snoc show ?thesis by auto
  qed
qed

lemma reposition_extent:
  "snd (foldl (reposition env lay) (p, e) bs) = foldl grow e (map (\<lambda>b. lay (node b)) bs)"
  by (induction bs rule: rev_induct) (simp_all add: reposition_def Let_def)

lemma Min_insert_min:
  "finite S \<Longrightarrow> Min (insert (min a c) S) = Min (insert a (insert c S))"
  by (cases "S = {}") (simp_all add: min.assoc)

lemma Max_insert_max:
  "finite S \<Longrightarrow> Max (insert (max a c) S) = Max (insert a (insert c S))"
  by (cases "S = {}") (simp_all add: max.assoc)

lemma grow_bounds:
  "minX (foldl grow e ls) = Min (insert (minX e) (computedLeft ` set ls))
   \<and> maxX (foldl grow e ls) = Max (insert (maxX e) ((\<lambda>l. computedLeft l + computedWidth l) ` set ls))
   \<and> minY (foldl grow e ls) = Min (insert (minY e) (computedTop ` set ls))
   \<and> maxY (foldl grow e ls) = Max (insert (maxY e) ((\<lambda>l. computedTop l + computedHeight l) ` set ls))"
proof (induction ls arbitrary: e)
  case Nil
  then show ?case by simp
next
  case (Cons l ls)
  show ?case
    using Cons.IH [of "grow e l"]
    by (simp add: grow_def Min_insert_min Max_insert_max insert_commute)
qed

lemma reflow_position_at:
  assumes "b \<in> set (boxes st)" and "distinct (map group (boxes st))"
  shows "position (reflow env st) (group b)
           = boxPosition env (computedWidth (computedLayout (reflow env st) (rootNode env)))
               (computedHeight (computedLayout (reflow env st) (rootNode env)))
               (computedLayout (reflow env st) (node b)) b"
  using find_last_distinct [OF assms]
  by (simp add: reflow_position reflow_layout repositionAll_def reposition_positions)

lemma Vector3_zero:
  assumes "component v (mainAxis p) = 0" and "component v (crossAxis p) = 0"
    and "component v (getDepthAxis p) = 0"
  shows "v = Vector3 0 0 0"
  using assms by (cases p; cases v) simp_all

text \<open>
  C1. After a reflow, the position of every registered box (the groups being distinct
  objects, the scale factor not zero) has, on the plane's main axis, the main-axis shift
  plus the computed left plus half the computed width when the box is center-anchored,
  divided by the scale factor; on the cross axis the negation of the same with the
  cross-axis shift, the top and the height; on the depth axis 0. For the plane \<open>'xy'\<close>, a
  scale factor of 100, no centering and a layout at left 0 and top 0 the position is
  (0, 0, 0). For a positive scale factor a greater top gives a strictly smaller
  cross-axis coordinate.
\<close>

theorem reflow_maps_layout:
  assumes "b \<in> set (boxes st)" and "distinct (map group (boxes st))"
    and "scaleFactor env \<noteq> 0"
  shows "let lay = computedLayout (reflow env st);
             l = lay (node b);
             shift = getRootShift (rootCenterAnchor env) (computedWidth (lay (rootNode env)))
                       (computedHeight (lay (rootNode env))) (node b);
             p = position (reflow env st) (group b)
         in component p (mainAxis (plane env))
              = (fst shift + computedLeft l + (if centerAnchor b then computedWidth l / 2 else 0))
                  / scaleFactor env
          \<and> component p (crossAxis (plane env))
              = - ((snd shift + computedTop l + (if centerAnchor b then computedHeight l / 2 else 0))
                  / scaleFactor env)
          \<and> component p (getDepthAxis (plane env)) = 0
          \<and> (plane env = XY \<and> scaleFactor env = 100 \<and> \<not> rootCenterAnchor env
               \<and> \<not> centerAnchor b \<and> computedLeft l = 0 \<and> computedTop l = 0
               \<longrightarrow> p = Vector3 0 0 0)
          \<and> (0 < scaleFactor env \<and> computedTop l1 < computedTop l2
               \<and> computedHeight l1 = computedHeight l2
               \<longrightarrow> component (boxPosition env rw rh l2 b) (crossAxis (plane env))
                     < component (boxPosition env rw rh l1 b) (crossAxis (plane env)))"
proof -
  let ?lay = "computedLayout (reflow env st)"
  let ?l = "?lay (node b)"
  let ?rw = "computedWidth (?lay (rootNode env))"
  let ?rh = "computedHeight (?lay (rootNode env))"
  let ?shift = "getRootShift (rootCenterAnchor env) ?rw ?rh (node b)"
  let ?p = "position (reflow env st) (group b)"
  have p: "?p = boxPosition env ?rw ?rh ?l b"
    using assms(1,2) by (rule reflow_position_at)
  have m: "component ?p (mainAxis (plane env))
      = (fst ?shift + computedLeft ?l + (if centerAnchor b then computedWidth ?l / 2 else 0))
          / scaleFactor env"
    by (simp only: p boxPosition_components)
  have c: "component ?p (crossAxis (plane env))
      = - ((snd ?shift + computedTop ?l + (if centerAnchor b then computedHeight ?l / 2 else 0))
          / scaleFactor env)"
    by (simp only: p boxPosition_components minus_divide_left)
  have d: "component ?p (getDepthAxis (plane env)) = 0"
    by (simp only: p boxPosition_components)
  have z: "plane env = XY \<and> scaleFactor env = 100 \<and> \<not> rootCenterAnchor env
       \<and> \<not> centerAnchor b \<and> computedLeft ?l = 0 \<and> computedTop ?l = 0 \<longrightarrow> ?p = Vector3 0 0 0"
  proof
    assume a: "plane env = XY \<and> scaleFactor env = 100 \<and> \<not> rootCenterAnchor env
       \<and> \<not> centerAnchor b \<and> computedLeft ?l = 0 \<and> computedTop ?l = 0"
    have "component ?p (mainAxis (plane env)) = 0"
      using a m by (simp add: getRootShift_def)
    moreover have "component ?p (crossAxis (plane env)) = 0"
      using a c by (simp add: getRootShift_def)
    ultimately show "?p = Vector3 0 0 0"
      using d by (rule Vector3_zero)
  qed
  have mono: "0 < scaleFactor env \<and> computedTop l1 < computedTop l2
       \<and> computedHeight l1 = computedHeight l2
       \<longrightarrow> component (boxPosition env rw rh l2 b) (crossAxis (plane env))
             < component (boxPosition env rw rh l1 b) (crossAxis (plane env))"
    by (simp add: boxPosition_components divide_strict_right_mono)
  from m c d z mono show ?thesis
    unfolding Let_def by blast
qed


theorem reflow_maps_layout_witness:
  "boxA \<in> set (boxes demoState) \<and> distinct (map group (boxes demoState))
   \<and> scaleFactor fillEnv \<noteq> 0 \<and> plane fillEnv = XY \<and> scaleFactor fillEnv = 100
   \<and> \<not> rootCenterAnchor fillEnv \<and> \<not> centerAnchor (boxA)
   \<and> computedLeft (computedLayout (reflow fillEnv demoState) (node (boxA))) = 0
   \<and> computedTop (computedLayout (reflow fillEnv demoState) (node (boxA))) = 0
   \<and> position (reflow fillEnv demoState) 11 = Vector3 0 0 0
   \<and> component (boxPosition fillEnv 200 100
        \<lparr>computedLeft = 0, computedTop = 30, computedWidth = 100, computedHeight = 50\<rparr>
        (boxA)) Y
     < component (boxPosition fillEnv 200 100
        \<lparr>computedLeft = 0, computedTop = 20, computedWidth = 100, computedHeight = 50\<rparr>
        (boxA)) Y"
proof -
  have lay: "computedLayout (reflow fillEnv demoState) n
      = \<lparr>computedLeft = 0, computedTop = 0, computedWidth = 200, computedHeight = 100\<rparr>" for n
    by (simp add: reflow_layout calculate_layout fillEnv_def demoEnv_def fillSolver_def)
  have env: "scaleFactor fillEnv = 100" "plane fillEnv = XY" "\<not> rootCenterAnchor fillEnv"
    by (simp_all add: fillEnv_def demoEnv_def)
  have box: "boxA \<in> set (boxes demoState)" "distinct (map group (boxes demoState))"
    "\<not> centerAnchor (boxA)" "group (boxA) = 11"
    by (simp_all add: demo_defs)
  show ?thesis
    using reflow_maps_layout [of "boxA" demoState fillEnv
        "\<lparr>computedLeft = 0, computedTop = 20, computedWidth = 100, computedHeight = 50\<rparr>"
        "\<lparr>computedLeft = 0, computedTop = 30, computedWidth = 100, computedHeight = 50\<rparr>"
        200 100]
    by (simp add: lay env box Let_def)
qed

text \<open>
  C5. The root shift that the reflow applies to the position of a registered box is zero
  on both axes when the container is not center-anchored, and half the root's computed
  width and height, directed from the top-left corner towards the origin (hence with a
  minus sign), when it is. So in a centered container a center-anchored child whose
  layout is at left 0 and top 0 with the root's computed size, in particular a single
  such child, ends at the position (0, 0, 0).
\<close>

theorem root_shift_centering:
  assumes "b \<in> set (boxes st)" and "distinct (map group (boxes st))"
    and "scaleFactor env \<noteq> 0"
  shows "let lay = computedLayout (reflow env st);
             l = lay (node b);
             rootWidth = computedWidth (lay (rootNode env));
             rootHeight = computedHeight (lay (rootNode env));
             p = position (reflow env st) (group b)
         in getRootShift (rootCenterAnchor env) rootWidth rootHeight (node b)
              = (if rootCenterAnchor env then (- (rootWidth / 2), - (rootHeight / 2)) else (0, 0))
          \<and> component p (mainAxis (plane env))
              = ((if rootCenterAnchor env then - (rootWidth / 2) else 0) + computedLeft l
                   + (if centerAnchor b then computedWidth l / 2 else 0)) / scaleFactor env
          \<and> component p (crossAxis (plane env))
              = - (((if rootCenterAnchor env then - (rootHeight / 2) else 0) + computedTop l
                   + (if centerAnchor b then computedHeight l / 2 else 0)) / scaleFactor env)
          \<and> (rootCenterAnchor env \<and> centerAnchor b \<and> computedLeft l = 0 \<and> computedTop l = 0
               \<and> computedWidth l = rootWidth \<and> computedHeight l = rootHeight
               \<longrightarrow> p = Vector3 0 0 0)"
proof -
  let ?lay = "computedLayout (reflow env st)"
  let ?l = "?lay (node b)"
  let ?rw = "computedWidth (?lay (rootNode env))"
  let ?rh = "computedHeight (?lay (rootNode env))"
  let ?p = "position (reflow env st) (group b)"
  have p: "?p = boxPosition env ?rw ?rh ?l b"
    using assms(1,2) by (rule reflow_position_at)
  have s: "getRootShift (rootCenterAnchor env) ?rw ?rh (node b)
      = (if rootCenterAnchor env then (- (?rw / 2), - (?rh / 2)) else (0, 0))"
    by (simp add: getRootShift_def)
  have sh: "fst (getRootShift (rootCenterAnchor env) ?rw ?rh (node b))
        = (if rootCenterAnchor env then - (?rw / 2) else 0)"
    "snd (getRootShift (rootCenterAnchor env) ?rw ?rh (node b))
        = (if rootCenterAnchor env then - (?rh / 2) else 0)"
    by (simp_all add: getRootShift_def)
  have m: "component ?p (mainAxis (plane env))
      = ((if rootCenterAnchor env then - (?rw / 2) else 0) + computedLeft ?l
           + (if centerAnchor b then computedWidth ?l / 2 else 0)) / scaleFactor env"
    by (simp only: p boxPosition_components sh)
  have c: "component ?p (crossAxis (plane env))
      = - (((if rootCenterAnchor env then - (?rh / 2) else 0) + computedTop ?l
           + (if centerAnchor b then computedHeight ?l / 2 else 0)) / scaleFactor env)"
    by (simp only: p boxPosition_components sh minus_divide_left)
  have d: "component ?p (getDepthAxis (plane env)) = 0"
    by (simp only: p boxPosition_components)
  have z: "rootCenterAnchor env \<and> centerAnchor b \<and> computedLeft ?l = 0 \<and> computedTop ?l = 0
       \<and> computedWidth ?l = ?rw \<and> computedHeight ?l = ?rh \<longrightarrow> ?p = Vector3 0 0 0"
  proof
    assume a: "rootCenterAnchor env \<and> centerAnchor b \<and> computedLeft ?l = 0 \<and> computedTop ?l = 0
       \<and> computedWidth ?l = ?rw \<and> computedHeight ?l = ?rh"
    have "component ?p (mainAxis (plane env)) = 0"
      using a m by simp
    moreover have "component ?p (crossAxis (plane env)) = 0"
      using a c by simp
    ultimately show "?p = Vector3 0 0 0"
      using d by (rule Vector3_zero)
  qed
  from s m c z show ?thesis
    unfolding Let_def by blast
qed

theorem root_shift_centering_witness:
  "boxB \<in> set (boxes centeredState) \<and> distinct (map group (boxes centeredState))
   \<and> scaleFactor centeredEnv \<noteq> 0 \<and> rootCenterAnchor centeredEnv \<and> centerAnchor boxB
   \<and> computedLayout (reflow centeredEnv centeredState) (node boxB)
       = \<lparr>computedLeft = 0, computedTop = 0, computedWidth = 200, computedHeight = 100\<rparr>
   \<and> computedLayout (reflow centeredEnv centeredState) (rootNode centeredEnv)
       = \<lparr>computedLeft = 0, computedTop = 0, computedWidth = 200, computedHeight = 100\<rparr>
   \<and> getRootShift (rootCenterAnchor centeredEnv) 200 100 2 = (- 100, - 50)
   \<and> position (reflow centeredEnv centeredState) 12 = Vector3 0 0 0"
proof -
  have lay: "computedLayout (reflow centeredEnv centeredState) n
      = \<lparr>computedLeft = 0, computedTop = 0, computedWidth = 200, computedHeight = 100\<rparr>" for n
    by (simp add: reflow_layout calculate_layout centeredEnv_def demoEnv_def fillSolver_def)
  have env: "scaleFactor centeredEnv = 100" "rootCenterAnchor centeredEnv"
    by (simp_all add: centeredEnv_def demoEnv_def)
  have box: "boxB \<in> set (boxes centeredState)"
    "distinct (map group (boxes centeredState))"
    "centerAnchor boxB" "group boxB = 12" "node boxB = 2"
    by (simp_all add: centeredState_def demoState_def boxB_def)
  show ?thesis
    using root_shift_centering [of "boxB" centeredState centeredEnv]
    by (simp add: lay env box Let_def)
qed

section \<open>The layout-changed notification\<close>

text \<open>
  C6, as amended. A reflow calls \<open>onReflow\<close> exactly once when a listener is given and not
  at all when none is. The arguments are the greatest right edge minus the least left
  edge, and the greatest bottom edge minus the least top edge, each divided by the scale
  factor, where the extremes are taken over the computed layouts of the registered boxes
  together with 0: the running bounds start at 0, so the extent always includes the
  container's origin.
\<close>

theorem onReflow_total:
  assumes "scaleFactor env \<noteq> 0"
  shows "let lay = computedLayout (reflow env st);
             lefts = (\<lambda>b. computedLeft (lay (node b))) ` set (boxes st);
             rights = (\<lambda>b. computedLeft (lay (node b)) + computedWidth (lay (node b))) ` set (boxes st);
             tops = (\<lambda>b. computedTop (lay (node b))) ` set (boxes st);
             bottoms = (\<lambda>b. computedTop (lay (node b)) + computedHeight (lay (node b))) ` set (boxes st)
         in notified (reflow env st)
              = notified st
                @ (case onReflow env of
                     None \<Rightarrow> []
                   | Some f \<Rightarrow>
                       [((Max (insert 0 rights) - Min (insert 0 lefts)) / scaleFactor env,
                         (Max (insert 0 bottoms) - Min (insert 0 tops)) / scaleFactor env)])"
proof -
  let ?lay = "computedLayout (reflow env st)"
  let ?st1 = "calculate env (recalcSizes env st)"
  have lay: "computedLayout ?st1 = ?lay"
    by (simp add: reflow_layout)
  have ext: "snd (repositionAll env ?st1) = foldl grow extent0 (map (\<lambda>b. ?lay (node b)) (boxes st))"
    by (simp add: repositionAll_def reposition_extent lay)
  let ?ls = "map (\<lambda>b. ?lay (node b)) (boxes st)"
  have b: "minX (foldl grow extent0 ?ls)
        = Min (insert 0 ((\<lambda>b. computedLeft (?lay (node b))) ` set (boxes st)))"
    "maxX (foldl grow extent0 ?ls)
        = Max (insert 0 ((\<lambda>b. computedLeft (?lay (node b)) + computedWidth (?lay (node b)))
                           ` set (boxes st)))"
    "minY (foldl grow extent0 ?ls)
        = Min (insert 0 ((\<lambda>b. computedTop (?lay (node b))) ` set (boxes st)))"
    "maxY (foldl grow extent0 ?ls)
        = Max (insert 0 ((\<lambda>b. computedTop (?lay (node b)) + computedHeight (?lay (node b)))
                           ` set (boxes st)))"
    by (simp_all add: grow_bounds [of extent0 ?ls] image_image) (simp_all add: extent0_def)
  have "reflowTotal env st =
      ((Max (insert 0 ((\<lambda>b. computedLeft (?lay (node b)) + computedWidth (?lay (node b))) ` set (boxes st)))
          - Min (insert 0 ((\<lambda>b. computedLeft (?lay (node b))) ` set (boxes st)))) / scaleFactor env,
       (Max (insert 0 ((\<lambda>b. computedTop (?lay (node b)) + computedHeight (?lay (node b))) ` set (boxes st)))
          - Min (insert 0 ((\<lambda>b. computedTop (?lay (node b))) ` set (boxes st)))) / scaleFactor env)"
    by (simp only: reflowTotal_def totalSize_def ext b)
  then show ?thesis
    by (simp add: reflow_notified Let_def split: option.splits)
qed


lemma solo_layout:
  "computedLayout (reflow demoEnv soloState) (node boxA)
     = \<lparr>computedLeft = 10, computedTop = 5, computedWidth = 100, computedHeight = 50\<rparr>"
  by (simp add: reflow_layout calculate_layout soloState_def demo_defs recalcSizes_def
      recalcSize_def Let_def setWidth_def setHeight_def)

lemma solo_facts:
  "boxes soloState = [boxA]" "scaleFactor demoEnv = 100"
  "onReflow demoEnv = Some (\<lambda>w h. [RequestReflow])"
  by (simp_all add: soloState_def demo_defs)

lemma solo_total: "reflowTotal demoEnv soloState = (11 / 10, 11 / 20)"
proof -
  have "computedLayout (calculate demoEnv (recalcSizes demoEnv soloState)) (node boxA)
     = \<lparr>computedLeft = 10, computedTop = 5, computedWidth = 100, computedHeight = 50\<rparr>"
    using solo_layout by (simp add: reflow_layout)
  then show ?thesis
    by (simp add: reflowTotal_def repositionAll_def reposition_def totalSize_def
        grow_def extent0_def Let_def solo_facts)
qed

theorem onReflow_total_witness:
  "scaleFactor demoEnv \<noteq> 0
   \<and> notified (reflow demoEnv soloState) = notified soloState @ [(11 / 10, 11 / 20)]"
  using onReflow_total [of demoEnv soloState]
  by (simp add: solo_layout solo_facts Let_def)

text \<open>
  The claim C6 as stated takes the extremes over the boxes only. With one box whose
  layout is at left 10 and top 5 with size 100 by 50 and a scale factor of 100, the
  listener receives (1.1, 0.55), not the (1, 0.5) of the claim.
\<close>

theorem onReflow_total_counterexample:
  "notified (reflow demoEnv soloState) = notified soloState @ [(11 / 10, 11 / 20)]
   \<and> claimedTotal demoEnv (computedLayout (reflow demoEnv soloState)) (boxes soloState)
       = (1, 1 / 2)
   \<and> notified (reflow demoEnv soloState)
       \<noteq> notified soloState
           @ [claimedTotal demoEnv (computedLayout (reflow demoEnv soloState)) (boxes soloState)]"
proof -
  have n: "notified (reflow demoEnv soloState) = notified soloState @ [(11 / 10, 11 / 20)]"
    by (simp add: reflow_notified solo_facts solo_total)
  have c: "claimedTotal demoEnv (computedLayout (reflow demoEnv soloState)) (boxes soloState)
       = (1, 1 / 2)"
    by (simp add: claimedTotal_def solo_facts solo_layout)
  from n c show ?thesis by simp
qed

section \<open>Running the reflow twice\<close>

lemma YogaTree_eqI:
  fixes y y' :: YogaTree
  assumes "styleWidth y = styleWidth y'" and "styleHeight y = styleHeight y'"
    and "childCount y = childCount y'"
  shows "y = y'"
  using assms by (cases y, cases y') simp

lemma writes_childCount:
  "childCount y = childCount y' \<Longrightarrow> writes y b = writes y' b"
  by (simp add: writes_def getChildCount_def)

lemma recalcSize_skip: "\<not> writes (fst s) b \<Longrightarrow> recalcSize env s b = s"
  by (simp add: writes_def recalcSize_parent)

lemma recalcSize_written:
  assumes "writes (fst s) b" and "childCount (fst s) = childCount (fst t)"
  shows "styleWidth (fst (recalcSize env s b)) (node b)
           = styleWidth (fst (recalcSize env t b)) (node b)
       \<and> styleHeight (fst (recalcSize env s b)) (node b)
           = styleHeight (fst (recalcSize env t b)) (node b)"
proof (cases "explicitSize b")
  case True
  then show ?thesis
    by (simp add: recalcSize_explicit setWidth_def setHeight_def)
next
  case False
  with assms have "getChildCount (fst s) (node b) = 0" "getChildCount (fst t) (node b) = 0"
    by (simp_all add: writes_def getChildCount_def)
  with False show ?thesis
    by (simp add: recalcSize_measured setWidth_def setHeight_def)
qed

lemma sizes_agree:
  assumes "childCount (fst s) = childCount (fst t)"
    and "\<And>n. n \<notin> node ` {b \<in> set bs. writes (fst s) b} \<Longrightarrow>
           styleWidth (fst s) n = styleWidth (fst t) n
           \<and> styleHeight (fst s) n = styleHeight (fst t) n"
  shows "fst (foldl (recalcSize env) s bs) = fst (foldl (recalcSize env) t bs)"
  using assms
proof (induction bs arbitrary: s t)
  case Nil
  have "styleWidth (fst s) = styleWidth (fst t)" "styleHeight (fst s) = styleHeight (fst t)"
    using Nil.prems(2) by (simp_all add: fun_eq_iff)
  with Nil.prems(1) show ?case
    by (simp add: YogaTree_eqI)
next
  case (Cons x xs)
  let ?s = "recalcSize env s x" and ?t = "recalcSize env t x"
  have cc: "childCount (fst ?s) = childCount (fst ?t)"
    using Cons.prems(1) by simp
  have ws: "writes (fst ?s) b = writes (fst s) b" for b
    by (rule writes_childCount) simp
  have wt: "writes (fst t) x = writes (fst s) x"
    by (rule writes_childCount) (simp add: Cons.prems(1))
  have agree: "styleWidth (fst ?s) n = styleWidth (fst ?t) n
           \<and> styleHeight (fst ?s) n = styleHeight (fst ?t) n"
    if n: "n \<notin> node ` {b \<in> set xs. writes (fst ?s) b}" for n
  proof (cases "writes (fst s) x")
    case True
    show ?thesis
    proof (cases "n = node x")
      case eq: True
      show ?thesis
        unfolding eq using True Cons.prems(1) by (rule recalcSize_written)
    next
      case ne: False
      from n ne True have "n \<notin> node ` {b \<in> set (x # xs). writes (fst s) b}"
        by (auto simp: ws)
      then have "styleWidth (fst s) n = styleWidth (fst t) n
           \<and> styleHeight (fst s) n = styleHeight (fst t) n"
        by (rule Cons.prems(2))
      with ne show ?thesis
        by (simp add: recalcSize_other)
    qed
  next
    case False
    then have skip: "?s = s" "?t = t"
      using wt by (simp_all add: recalcSize_skip)
    from n False have "n \<notin> node ` {b \<in> set (x # xs). writes (fst s) b}"
      by (auto simp: ws)
    then have "styleWidth (fst s) n = styleWidth (fst t) n
           \<and> styleHeight (fst s) n = styleHeight (fst t) n"
      by (rule Cons.prems(2))
    then show ?thesis
      by (simp only: skip)
  qed
  have "fst (foldl (recalcSize env) ?s xs) = fst (foldl (recalcSize env) ?t xs)"
    using cc agree by (rule Cons.IH)
  then show ?case by simp
qed

lemma sizes_unwritten:
  "n \<notin> node ` {b \<in> set bs. writes (fst s) b} \<Longrightarrow>
   styleWidth (fst (foldl (recalcSize env) s bs)) n = styleWidth (fst s) n
   \<and> styleHeight (fst (foldl (recalcSize env) s bs)) n = styleHeight (fst s) n"
proof (induction bs arbitrary: s)
  case Nil
  then show ?case by simp
next
  case (Cons x xs)
  let ?s = "recalcSize env s x"
  have ws: "writes (fst ?s) b = writes (fst s) b" for b
    by (rule writes_childCount) simp
  from Cons.prems have rest: "n \<notin> node ` {b \<in> set xs. writes (fst ?s) b}"
    by (auto simp: ws)
  have step: "styleWidth (fst ?s) n = styleWidth (fst s) n
           \<and> styleHeight (fst ?s) n = styleHeight (fst s) n"
  proof (cases "writes (fst s) x")
    case True
    with Cons.prems have "n \<noteq> node x" by auto
    then show ?thesis by (simp add: recalcSize_other)
  next
    case False
    then show ?thesis by (simp add: recalcSize_skip)
  qed
  from Cons.IH [OF rest] step show ?case by simp
qed

lemma sizes_idem:
  "fst (foldl (recalcSize env) (fst (foldl (recalcSize env) s bs), c) bs)
     = fst (foldl (recalcSize env) s bs)"
proof (rule sizes_agree)
  let ?r = "foldl (recalcSize env) s bs"
  show "childCount (fst (fst ?r, c)) = childCount (fst s)"
    by simp
  fix n
  assume "n \<notin> node ` {b \<in> set bs. writes (fst (fst ?r, c)) b}"
  moreover have "writes (fst (fst ?r, c)) b = writes (fst s) b" for b
    by (rule writes_childCount) simp
  ultimately have "n \<notin> node ` {b \<in> set bs. writes (fst s) b}"
    by simp
  then show "styleWidth (fst (fst ?r, c)) n = styleWidth (fst s) n
           \<and> styleHeight (fst (fst ?r, c)) n = styleHeight (fst s) n"
    using sizes_unwritten [of n bs s env] by simp
qed

lemma recalcSizes_idem:
  assumes "yoga st' = yoga (recalcSizes env st)" and "boxes st' = boxes st"
  shows "yoga (recalcSizes env st') = yoga st'"
proof (cases "disableSizeRecalc env")
  case True
  then show ?thesis by (simp add: recalcSizes_def)
next
  case False
  then show ?thesis
    using sizes_idem [of env "(yoga st, measured st)" "boxes st" "measured st'"]
    by (simp add: recalcSizes_yoga assms)
qed


lemma reflow_positions:
  "position (reflow env st) g
     = (case find (\<lambda>b. group b = g) (rev (boxes st)) of
          None \<Rightarrow> position st g
        | Some b \<Rightarrow>
            boxPosition env (computedWidth (computedLayout (reflow env st) (rootNode env)))
              (computedHeight (computedLayout (reflow env st) (rootNode env)))
              (computedLayout (reflow env st) (node b)) b)"
  by (simp add: reflow_position reflow_layout repositionAll_def reposition_positions
      split: option.splits)

lemma reflowTotal_reads:
  "reflowTotal env st
     = totalSize env (foldl grow extent0
         (map (\<lambda>b. computedLayout (reflow env st) (node b)) (boxes st)))"
  by (simp add: reflowTotal_def repositionAll_def reposition_extent reflow_layout)

text \<open>
  C7. Running the reflow a second time right after the first, with the same props and
  collaborators and with the registry as the first run found it, gives the same widths
  and heights on the solver's nodes, the same computed layout, the same position of
  every group and the same pair for the listener.
\<close>

theorem reflow_idempotent:
  assumes "boxes (reflow env st) = boxes st"
  shows "yoga (reflow env (reflow env st)) = yoga (reflow env st)
       \<and> computedLayout (reflow env (reflow env st)) = computedLayout (reflow env st)
       \<and> position (reflow env (reflow env st)) = position (reflow env st)
       \<and> reflowTotal env (reflow env st) = reflowTotal env st
       \<and> notified (reflow env (reflow env st))
           = notified st
             @ (case onReflow env of
                  None \<Rightarrow> []
                | Some f \<Rightarrow> [reflowTotal env st, reflowTotal env st])"
proof -
  let ?st = "reflow env st"
  have first: "yoga ?st = yoga (recalcSizes env st)"
    by (rule reflow_yoga)
  have again: "yoga (recalcSizes env ?st) = yoga ?st"
    using first assms by (rule recalcSizes_idem)
  have y: "yoga (reflow env ?st) = yoga ?st"
    using again by (simp only: reflow_yoga)
  have same: "yoga (recalcSizes env ?st) = yoga (recalcSizes env st)"
    using again first by simp
  have l: "computedLayout (reflow env ?st) = computedLayout ?st"
    by (simp only: reflow_layout calculate_layout same)
  have p: "position (reflow env ?st) = position ?st"
  proof
    fix g
    show "position (reflow env ?st) g = position ?st g"
    proof (cases "find (\<lambda>b. group b = g) (rev (boxes st))")
      case None
      then show ?thesis
        by (simp add: reflow_positions [of env ?st] assms)
    next
      case (Some b)
      then show ?thesis
        by (simp add: reflow_positions [of env ?st] reflow_positions [of env st] assms l)
    qed
  qed
  have t: "reflowTotal env ?st = reflowTotal env st"
    by (simp only: reflowTotal_reads l assms)
  have n: "notified (reflow env ?st)
           = notified st
             @ (case onReflow env of
                  None \<Rightarrow> []
                | Some f \<Rightarrow> [reflowTotal env st, reflowTotal env st])"
    by (simp add: reflow_notified [of env ?st] reflow_notified [of env st] t split: option.splits)
  from y l p t n show ?thesis by simp
qed

lemma demo_position:
  "position (reflow demoEnv demoState) (group boxA) = Vector3 (1 / 10) (- (1 / 20)) 0"
proof -
  have "boxA \<in> set (boxes demoState)" "distinct (map group (boxes demoState))"
    by (simp_all add: demo_defs)
  then have "position (reflow demoEnv demoState) (group boxA)
      = boxPosition demoEnv
          (computedWidth (computedLayout (reflow demoEnv demoState) (rootNode demoEnv)))
          (computedHeight (computedLayout (reflow demoEnv demoState) (rootNode demoEnv)))
          (computedLayout (reflow demoEnv demoState) (node boxA)) boxA"
    by (rule reflow_position_at)
  moreover have "computedLeft (computedLayout (reflow demoEnv demoState) (node boxA)) = 10"
    "computedTop (computedLayout (reflow demoEnv demoState) (node boxA)) = 5"
    by (simp_all add: reflow_layout calculate_layout demoEnv_def demoSolver_def boxA_def)
  ultimately show ?thesis
    by (simp add: boxPosition_def getRootShift_def vectorFromObject_def getKey_def Let_def
        demoEnv_def boxA_def)
qed

theorem reflow_idempotent_witness:
  "boxes (reflow demoEnv demoState) = boxes demoState
   \<and> yoga (reflow demoEnv (reflow demoEnv demoState)) = yoga (reflow demoEnv demoState)
   \<and> computedLayout (reflow demoEnv (reflow demoEnv demoState))
       = computedLayout (reflow demoEnv demoState)
   \<and> position (reflow demoEnv (reflow demoEnv demoState)) (group boxA)
       = Vector3 (1 / 10) (- (1 / 20)) 0
   \<and> reflowTotal demoEnv (reflow demoEnv demoState) = reflowTotal demoEnv demoState"
proof -
  have "boxes (reflow demoEnv demoState) = boxes demoState"
    by (simp add: reflow_def Let_def notify_def demoEnv_def applyAction_def requestReflow_def)
  then show ?thesis
    using reflow_idempotent [of demoEnv demoState] by (simp add: demo_position)
qed

end
